theory Spec2Isabelle
  imports Main "HOL-Library.Sublist"
begin

section \<open>JavaScript numbers\<close>

text \<open>
  The fields of \<open>PickupDay\<close> are JavaScript numbers. The scheduler only ever stores
  integers in them (\<open>-1\<close>, a weekday index, a parsed digit) or \<open>NaN\<close> (what
  \<open>parseInt\<close> gives for a non-digit and what \<open>moment(..).day()\<close> gives for an invalid
  moment). \<open>==\<close> and \<open><\<close> are false as soon as one side is \<open>NaN\<close>.
\<close>

datatype jsnum = NaN | Num int

fun js_eq :: "jsnum \<Rightarrow> jsnum \<Rightarrow> bool" where
  "js_eq (Num a) (Num b) = (a = b)"
| "js_eq _ _ = False"

fun js_lt :: "jsnum \<Rightarrow> jsnum \<Rightarrow> bool" where
  "js_lt (Num a) (Num b) = (a < b)"
| "js_lt _ _ = False"

section \<open>The calls into moment.js\<close>

text \<open>
  Every moment the scheduler handles is at the start of a day
  (\<open>moment().startOf('day')\<close>, then \<open>clone().add(i, 'days')\<close> and
  \<open>startOf('month')\<close>), so a moment is modelled as a civil date of the proleptic
  Gregorian calendar: \<open>year()\<close>, \<open>month()\<close> (0 = January, as in moment) and
  \<open>date()\<close> (day of the month, from 1). Time of day and time zones are left out.
\<close>

record moment =
  year :: int
  month :: int
  date :: int

definition isLeapYear :: "int \<Rightarrow> bool" where
  "isLeapYear y = ((y mod 4 = 0 \<and> y mod 100 \<noteq> 0) \<or> y mod 400 = 0)"

definition daysInMonth :: "int \<Rightarrow> int \<Rightarrow> int" where
  "daysInMonth y m =
     (if m = 1 then (if isLeapYear y then 29 else 28)
      else if m = 3 \<or> m = 5 \<or> m = 8 \<or> m = 10 then 30 else 31)"

definition daysInYear :: "int \<Rightarrow> int" where
  "daysInYear y = (if isLeapYear y then 366 else 365)"

definition valid :: "moment \<Rightarrow> bool" where
  "valid x = (0 \<le> month x \<and> month x \<le> 11 \<and> 1 \<le> date x \<and> date x \<le> daysInMonth (year x) (month x))"

text \<open>\<open>add(1, 'days')\<close> and \<open>add(-1, 'days')\<close>: the next and the previous civil date.\<close>

definition add1 :: "moment \<Rightarrow> moment" where
  "add1 x =
     (if date x < daysInMonth (year x) (month x) then x\<lparr>date := date x + 1\<rparr>
      else if month x < 11 then x\<lparr>month := month x + 1, date := 1\<rparr>
      else \<lparr>year = year x + 1, month = 0, date = 1\<rparr>)"

definition sub1 :: "moment \<Rightarrow> moment" where
  "sub1 x =
     (if 1 < date x then x\<lparr>date := date x - 1\<rparr>
      else if 0 < month x then x\<lparr>month := month x - 1, date := daysInMonth (year x) (month x - 1)\<rparr>
      else \<lparr>year = year x - 1, month = 11, date = 31\<rparr>)"

text \<open>\<open>add(i, 'days')\<close> for any integer \<open>i\<close>.\<close>

definition addDays :: "moment \<Rightarrow> int \<Rightarrow> moment" where
  "addDays x i = (if 0 \<le> i then (add1 ^^ nat i) x else (sub1 ^^ nat (- i)) x)"

definition startOfMonth :: "moment \<Rightarrow> moment" where
  "startOfMonth x = x\<lparr>date := 1\<rparr>"

text \<open>\<open>a.isSame(b, 'day')\<close>: the same civil date.\<close>

definition isSame :: "moment \<Rightarrow> moment \<Rightarrow> bool" where
  "isSame a b = (year a = year b \<and> month a = month b \<and> date a = date b)"

text \<open>
  The day number: days from 0001-01-01 (day 1, a Monday), counted over whole years,
  whole months of the year, and the day of the month.
\<close>

definition daysBeforeYear :: "int \<Rightarrow> int" where
  "daysBeforeYear y = 365 * (y - 1) + (y - 1) div 4 - (y - 1) div 100 + (y - 1) div 400"

definition daysBeforeMonth :: "int \<Rightarrow> int \<Rightarrow> int" where
  "daysBeforeMonth y m = (\<Sum>k\<leftarrow>[0..<nat m]. daysInMonth y (int k))"

definition dayOfYear :: "moment \<Rightarrow> int" where
  "dayOfYear x = daysBeforeMonth (year x) (month x) + date x"

definition dayNumber :: "moment \<Rightarrow> int" where
  "dayNumber x = daysBeforeYear (year x) + dayOfYear x"

text \<open>\<open>day()\<close>: the day of the week, 0 = Sunday, ..., 6 = Saturday.\<close>

definition momentDay :: "moment \<Rightarrow> int" where
  "momentDay x = dayNumber x mod 7"

text \<open>
  \<open>weeks()\<close> is the week of the year of the locale, here moment's default locale
  \<open>en\<close> with \<open>dow = 0\<close> and \<open>doy = 6\<close>: weeks run from Sunday to Saturday and week 1 is
  the week that holds January 1st. The definitions follow moment's
  \<open>firstWeekOffset\<close>, \<open>weeksInYear\<close> and \<open>weekOfYear\<close>.
\<close>

definition firstWeekOffset :: "int \<Rightarrow> int \<Rightarrow> int \<Rightarrow> int" where
  "firstWeekOffset y dow doy =
     (let fwd = 7 + dow - doy;
          fwdlw = (7 + momentDay \<lparr>year = y, month = 0, date = fwd\<rparr> - dow) mod 7
      in - fwdlw + fwd - 1)"

definition weeksInYear :: "int \<Rightarrow> int \<Rightarrow> int \<Rightarrow> int" where
  "weeksInYear y dow doy =
     (daysInYear y - firstWeekOffset y dow doy + firstWeekOffset (y + 1) dow doy) div 7"

definition weekOfYear :: "moment \<Rightarrow> int \<Rightarrow> int \<Rightarrow> int" where
  "weekOfYear x dow doy =
     (let weekOffset = firstWeekOffset (year x) dow doy;
          week = (dayOfYear x - weekOffset - 1) div 7 + 1
      in if week < 1 then week + weeksInYear (year x - 1) dow doy
         else if week > weeksInYear (year x) dow doy then week - weeksInYear (year x) dow doy
         else week)"

definition weeks :: "moment \<Rightarrow> int" where
  "weeks x = weekOfYear x 0 6"

section \<open>Strings\<close>

text \<open>
  The string methods \<open>parseData\<close> calls, on \<open>string\<close>: a list of 8-bit characters, read
  as the code points U+0000 to U+00FF.
\<close>

definition isDigit :: "char \<Rightarrow> bool" where
  "isDigit c = (48 \<le> (of_char c :: nat) \<and> (of_char c :: nat) \<le> 57)"

definition isSpace :: "char \<Rightarrow> bool" where
  "isSpace c = ((of_char c :: nat) = 32 \<or> (9 \<le> (of_char c :: nat) \<and> (of_char c :: nat) \<le> 13))"

definition isUpper :: "char \<Rightarrow> bool" where
  "isUpper c = (65 \<le> (of_char c :: nat) \<and> (of_char c :: nat) \<le> 90)"

definition isLower :: "char \<Rightarrow> bool" where
  "isLower c = (97 \<le> (of_char c :: nat) \<and> (of_char c :: nat) \<le> 122)"

definition toLower :: "char \<Rightarrow> char" where
  "toLower c = (if isUpper c then char_of ((of_char c :: nat) + 32) else c)"

text \<open>\<open>s.substr(start, length)\<close> and \<open>s.substr(start)\<close>; a negative start counts from the end.\<close>

definition substrStart :: "string \<Rightarrow> int \<Rightarrow> nat" where
  "substrStart s start =
     (if start < 0 then nat (max (int (length s) + start) 0) else min (nat start) (length s))"

definition substr :: "string \<Rightarrow> int \<Rightarrow> int \<Rightarrow> string" where
  "substr s start len = take (nat len) (drop (substrStart s start) s)"

definition substrFrom :: "string \<Rightarrow> int \<Rightarrow> string" where
  "substrFrom s start = drop (substrStart s start) s"

text \<open>\<open>s.indexOf(c)\<close> for a one-character search string: the first position, or -1.\<close>

fun indexOf :: "string \<Rightarrow> char \<Rightarrow> int" where
  "indexOf [] c = -1"
| "indexOf (x # xs) c = (if x = c then 0 else (let r = indexOf xs c in if r < 0 then -1 else r + 1))"

text \<open>\<open>s.split(sep)[0]\<close> for a one-character separator: what stands before the first one.\<close>

definition splitFirst :: "string \<Rightarrow> char \<Rightarrow> string" where
  "splitFirst s sep = takeWhile (\<lambda>c. c \<noteq> sep) s"

text \<open>\<open>s.includes(sub)\<close>.\<close>

fun includes_str :: "string \<Rightarrow> string \<Rightarrow> bool" where
  "includes_str [] sub = (sub = [])"
| "includes_str (c # cs) sub = (prefix sub (c # cs) \<or> includes_str cs sub)"

text \<open>
  \<open>parseInt(s)\<close> in base 10: leading white space, an optional sign, then the longest run
  of digits; \<open>NaN\<close> when there is no digit. (The \<open>0x\<close> prefix of \<open>parseInt\<close> needs two
  characters; \<open>parseData\<close> only passes \<open>substr(0, 1)\<close>.)
\<close>

fun digitsValue :: "int \<Rightarrow> string \<Rightarrow> int" where
  "digitsValue acc [] = acc"
| "digitsValue acc (c # cs) = digitsValue (10 * acc + (int (of_char c) - 48)) cs"

definition parseInt :: "string \<Rightarrow> jsnum" where
  "parseInt s =
     (let t = dropWhile isSpace s;
          neg = (t \<noteq> [] \<and> hd t = CHR ''-'');
          u = (if t \<noteq> [] \<and> (hd t = CHR ''-'' \<or> hd t = CHR ''+'') then tl t else t);
          ds = takeWhile isDigit u
      in if ds = [] then NaN else Num (if neg then - digitsValue 0 ds else digitsValue 0 ds))"

subsection \<open>Parsing a weekday name with moment\<close>

text \<open>
  \<open>moment(dayStr, 'dddd')\<close> parses in moment's forgiving (non-strict) mode. The token
  \<open>dddd\<close> takes the first match of moment's word pattern \<open>matchWord\<close> (digits, then
  one or more of the letters a-z, the apostrophe and the characters from U+00A0 on;
  case-insensitive) anywhere in the input, and the locale's \<open>weekdaysParse\<close> returns
  the first weekday \<open>i\<close> whose pattern \<open>^long|^short|^min\<close> (for Monday:
  \<open>^Monday|^Mon|^Mo\<close>, case-insensitive) matches that word. When there is no word, or no weekday matches it, the moment is invalid
  and \<open>day()\<close> is \<open>NaN\<close>; otherwise \<open>day()\<close> is the weekday found. (The second
  alternative of \<open>matchWord\<close> needs characters from U+0600 on and matches no string
  of 8-bit characters.)
\<close>

definition isWordChar :: "char \<Rightarrow> bool" where
  "isWordChar c = (isLower c \<or> isUpper c \<or> c = CHR 0x27 \<or> 160 \<le> (of_char c :: nat))"

fun matchWord :: "string \<Rightarrow> string option" where
  "matchWord [] = None"
| "matchWord (c # cs) =
     (let rest = dropWhile isDigit (c # cs)
      in if rest \<noteq> [] \<and> isWordChar (hd rest)
         then Some (takeWhile isDigit (c # cs) @ takeWhile isWordChar rest)
         else matchWord cs)"

definition weekdayNames :: "(int \<times> string \<times> string \<times> string) list" where
  "weekdayNames =
     [(0, ''Sunday'', ''Sun'', ''Su''), (1, ''Monday'', ''Mon'', ''Mo''),
      (2, ''Tuesday'', ''Tue'', ''Tu''), (3, ''Wednesday'', ''Wed'', ''We''),
      (4, ''Thursday'', ''Thu'', ''Th''), (5, ''Friday'', ''Fri'', ''Fr''),
      (6, ''Saturday'', ''Sat'', ''Sa'')]"

definition startsWithI :: "string \<Rightarrow> string \<Rightarrow> bool" where
  "startsWithI name w = prefix (map toLower name) (map toLower w)"

definition weekdaysParse :: "string \<Rightarrow> int option" where
  "weekdaysParse w =
     map_option fst
       (find (\<lambda>(i, long, short, mn). startsWithI long w \<or> startsWithI short w \<or> startsWithI mn w)
          weekdayNames)"

section \<open>The scheduler\<close>

record PickupDay =
  wasteDay :: jsnum
  junkWeekOfMonth :: jsnum
  junkDay :: jsnum
  recyclingDay :: jsnum
  recyclingOnEvenWeeks :: bool

record EventInfo =
  day :: moment
  categories :: "string list"
  possibleHoliday :: bool

text \<open>
  A result of the city's map server, \<open>{features: [{attributes: {FIELD: "..."}}, ...]}\<close>.
  Each of the three queries asks for one field (\<open>DAY\<close>, \<open>SERVICE_DA\<close>,
  \<open>SERVICE_DAY\<close>), so \<open>attributes\<close> is modelled by the string value of that field;
  \<open>None\<close> stands for an absent (null or undefined) object or member.
\<close>

record feature =
  attributes :: "string option"

record mapData =
  features :: "feature list option"

definition getDayIndex :: "string \<Rightarrow> jsnum" where
  "getDayIndex dayStr =
     (case matchWord dayStr of
        None \<Rightarrow> NaN
      | Some w \<Rightarrow> (case weekdaysParse w of None \<Rightarrow> NaN | Some i \<Rightarrow> Num i))"

definition isValidData :: "mapData option \<Rightarrow> bool" where
  "isValidData data =
     (case data of
        None \<Rightarrow> False
      | Some r \<Rightarrow> (case features r of
                    None \<Rightarrow> False
                  | Some fs \<Rightarrow> length fs \<noteq> 0 \<and> attributes (hd fs) \<noteq> None))"

text \<open>The field read from \<open>data.features[0].attributes\<close>, for valid data.\<close>

definition fieldOf :: "mapData option \<Rightarrow> string" where
  "fieldOf data = the (attributes (hd (the (features (the data)))))"

definition parseData :: "mapData option \<Rightarrow> mapData option \<Rightarrow> mapData option \<Rightarrow> PickupDay" where
  "parseData wasteData junkData recyclingData =
     (let wasteDay = (if isValidData wasteData then getDayIndex (fieldOf wasteData) else Num (-1));
          (junkWeekOfMonth, junkDay) =
             (if isValidData junkData
              then (let junkPattern = fieldOf junkData
                    in (parseInt (substr junkPattern 0 1),
                        getDayIndex (substrFrom junkPattern (indexOf junkPattern CHR '' ''))))
              else (Num (-1), Num (-1)));
          (recyclingDay, recyclingOnEvenWeeks) =
             (if isValidData recyclingData
              then (let recyclingSchedule = fieldOf recyclingData
                    in (getDayIndex (splitFirst recyclingSchedule CHR ''-''),
                        \<not> includes_str recyclingSchedule ''-A''))
              else (Num (-1), False))
      in \<lparr>wasteDay = wasteDay, junkWeekOfMonth = junkWeekOfMonth, junkDay = junkDay,
          recyclingDay = recyclingDay, recyclingOnEvenWeeks = recyclingOnEvenWeeks\<rparr>)"

definition isWasteDay :: "PickupDay \<Rightarrow> moment \<Rightarrow> bool" where
  "isWasteDay pickupDays d = js_eq (Num (momentDay d)) (wasteDay pickupDays)"

text \<open>
  The loop of \<open>isHeavyDay\<close>. Nothing bounds it in the source, so it is a partial
  function: \<open>None\<close> is a loop that never ends.
\<close>

partial_function (option) heavyLoop :: "PickupDay \<Rightarrow> moment \<Rightarrow> int \<Rightarrow> moment option" where
  "heavyLoop pickupDays dayInMonth occurances =
     (if js_lt (Num occurances) (junkWeekOfMonth pickupDays)
      then heavyLoop pickupDays (addDays dayInMonth 1)
             (if js_eq (Num (momentDay dayInMonth)) (junkDay pickupDays)
              then occurances + 1 else occurances)
      else Some dayInMonth)"

declare heavyLoop.simps [code]

definition isHeavyDay :: "PickupDay \<Rightarrow> moment \<Rightarrow> bool option" where
  "isHeavyDay pickupDays d =
     map_option (\<lambda>dayInMonth. isSame (addDays dayInMonth (-1)) d)
       (heavyLoop pickupDays (startOfMonth d) 0)"

definition isEvenMonth :: "moment \<Rightarrow> bool" where
  "isEvenMonth d = ((month d + 1) mod 2 = 0)"

text \<open>\<open>&&\<close> evaluates its right side only when the left side is true.\<close>

definition isTreeDay :: "PickupDay \<Rightarrow> moment \<Rightarrow> bool option" where
  "isTreeDay pickupDays d = (if \<not> isEvenMonth d then isHeavyDay pickupDays d else Some False)"

definition isJunkDay :: "PickupDay \<Rightarrow> moment \<Rightarrow> bool option" where
  "isJunkDay pickupDays d = (if isEvenMonth d then isHeavyDay pickupDays d else Some False)"

definition isRecyclingDay :: "PickupDay \<Rightarrow> moment \<Rightarrow> bool" where
  "isRecyclingDay pickupDays d =
     (let isEvenWeek = (weeks d mod 2 = 0);
          isThisWeek = ((recyclingOnEvenWeeks pickupDays \<and> isEvenWeek)
                        \<or> (\<not> recyclingOnEvenWeeks pickupDays \<and> \<not> isEvenWeek))
      in isThisWeek \<and> js_eq (Num (momentDay d)) (recyclingDay pickupDays))"

text \<open>\<open>_.some(xs, p)\<close> of lodash: stops at the first element that satisfies \<open>p\<close>.\<close>

fun some :: "'a list \<Rightarrow> ('a \<Rightarrow> bool) \<Rightarrow> bool" where
  "some [] p = False"
| "some (x # xs) p = (if p x then True else some xs p)"

text \<open>
  The holiday table \<open>HOLIDAYS\<close> is imported from the module \<open>HoustonHolidays\<close>; here it
  is a parameter, a list of moments.
\<close>

definition isPossibleHoliday :: "moment list \<Rightarrow> moment \<Rightarrow> bool" where
  "isPossibleHoliday holidays d = some holidays (\<lambda>h. isSame h d)"

text \<open>\<open>_.toPairs\<close> lists the members of the object literal in the order they were written.\<close>

definition getCategoriesForDay :: "PickupDay \<Rightarrow> moment \<Rightarrow> string list option" where
  "getCategoriesForDay pickupDays d =
     (case isJunkDay pickupDays d of
        None \<Rightarrow> None
      | Some junk \<Rightarrow>
          (case isTreeDay pickupDays d of
             None \<Rightarrow> None
           | Some tree \<Rightarrow>
               Some (map fst (filter snd
                 [(''waste'', isWasteDay pickupDays d), (''junk'', junk), (''tree'', tree),
                  (''recycling'', isRecyclingDay pickupDays d)]))))"

text \<open>
  \<open>_.range(start, end)\<close> of lodash 4 (the version that has \<open>_.toPairs\<close>): with no step
  given, the step is 1 when \<open>start < end\<close> and -1 otherwise, and the result has
  \<open>max(ceil((end - start) / step), 0)\<close> elements \<open>start, start + step, ...\<close>.
\<close>

definition range_lodash :: "int \<Rightarrow> int \<Rightarrow> int list" where
  "range_lodash start stop =
     (let step = (if start < stop then 1 else -1);
          len = nat (max ((stop - start) div step) 0)
      in map (\<lambda>k. start + int k * step) [0..<len])"

definition groupEvents :: "PickupDay \<Rightarrow> moment list \<Rightarrow> moment \<Rightarrow> EventInfo option" where
  "groupEvents pickupDays holidays d =
     map_option (\<lambda>cs. \<lparr>day = d, categories = cs, possibleHoliday = isPossibleHoliday holidays d\<rparr>)
       (getCategoriesForDay pickupDays d)"

text \<open>
  \<open>getUpcomingEvents\<close>, with \<open>moment().startOf('day')\<close> as the parameter \<open>today\<close>.
  \<open>those\<close> is \<open>None\<close> as soon as the classification of one day does not return.
\<close>

definition getUpcomingEvents :: "PickupDay \<Rightarrow> moment list \<Rightarrow> moment \<Rightarrow> int \<Rightarrow> EventInfo list option" where
  "getUpcomingEvents pickupDays holidays today numberOfDays =
     map_option (filter (\<lambda>event. length (categories event) \<noteq> 0))
       (those (map (groupEvents pickupDays holidays)
                 (map (\<lambda>i. addDays today i) (range_lodash 0 numberOfDays))))"

section \<open>Notions used in the statements\<close>

text \<open>The order of civil dates: by year, then month, then day of the month.\<close>

definition isBefore :: "moment \<Rightarrow> moment \<Rightarrow> bool" where
  "isBefore a b =
     (year a < year b \<or> (year a = year b \<and> (month a < month b \<or> (month a = month b \<and> date a < date b))))"

text \<open>
  \<open>d\<close> is the \<open>n\<close>-th occurrence of the weekday \<open>w\<close> within its month: it falls on \<open>w\<close>,
  and \<open>n\<close> days of its month from the 1st up to \<open>d\<close> fall on \<open>w\<close>.
\<close>

definition nthWeekdayOfMonth :: "int \<Rightarrow> int \<Rightarrow> moment \<Rightarrow> bool" where
  "nthWeekdayOfMonth n w d =
     (momentDay d = w \<and>
      int (length (filter (\<lambda>k. momentDay (d\<lparr>date := k\<rparr>) = w) [1..date d])) = n)"

text \<open>
  The days from the 1st of the month of \<open>d\<close> to the \<open>n\<close>-th occurrence of the weekday \<open>w\<close>
  on or after the 1st.
\<close>

definition heavyOffset :: "int \<Rightarrow> int \<Rightarrow> moment \<Rightarrow> int" where
  "heavyOffset n w d = (w - momentDay (startOfMonth d)) mod 7 + 7 * (n - 1)"

text \<open>
  The rules on which the loop of \<open>isHeavyDay\<close> ends: it is never entered (the week of
  the month is \<open>NaN\<close> or not positive), or the heavy day is a weekday index.
\<close>

definition heavyReturns :: "PickupDay \<Rightarrow> bool" where
  "heavyReturns p =
     (\<not> js_lt (Num 0) (junkWeekOfMonth p) \<or>
      (case junkDay p of NaN \<Rightarrow> False | Num w \<Rightarrow> 0 \<le> w \<and> w \<le> 6))"

text \<open>
  A word begins with a weekday, for moment: with the two-letter short form of an
  English weekday name, in any letter case. A string holds no weekday when its
  first word (if any) does not begin with one.
\<close>

definition startsWithWeekday :: "string \<Rightarrow> bool" where
  "startsWithWeekday w =
     (\<exists>ab \<in> set [''su'', ''mo'', ''tu'', ''we'', ''th'', ''fr'', ''sa'']. prefix ab (map toLower w))"

definition noWeekdayIn :: "string \<Rightarrow> bool" where
  "noWeekdayIn s = (case matchWord s of None \<Rightarrow> True | Some w \<Rightarrow> \<not> startsWithWeekday w)"

section \<open>Basic facts\<close>

lemma those_map_member:
  "those (map f xs) = Some ys \<Longrightarrow> y \<in> set ys \<Longrightarrow> \<exists>x \<in> set xs. f x = Some y"
  by (induction xs arbitrary: ys) (auto split: option.splits)

lemma those_map_total:
  "(\<And>x. x \<in> set xs \<Longrightarrow> f x \<noteq> None) \<Longrightarrow> those (map f xs) \<noteq> None"
  by (induction xs) (auto split: option.splits)

text \<open>Every event of the window comes from one index of the range, classified on its date.\<close>

lemma upcoming_event_origin:
  assumes "getUpcomingEvents p hol today n = Some evs" and "e \<in> set evs"
  shows "\<exists>i \<in> set (range_lodash 0 n).
           getCategoriesForDay p (addDays today i) = Some (categories e) \<and>
           day e = addDays today i \<and>
           possibleHoliday e = isPossibleHoliday hol (addDays today i) \<and>
           categories e \<noteq> []"
proof -
  let ?ds = "map (\<lambda>i. addDays today i) (range_lodash 0 n)"
  from assms(1) obtain all where
    all: "those (map (groupEvents p hol) ?ds) = Some all"
    and evs: "evs = filter (\<lambda>event. length (categories event) \<noteq> 0) all"
    by (auto simp: getUpcomingEvents_def)
  from assms(2) evs have mem: "e \<in> set all" and ne: "categories e \<noteq> []" by auto
  from those_map_member [OF all mem] obtain d where "d \<in> set ?ds" and "groupEvents p hol d = Some e"
    by blast
  then show ?thesis using ne by (auto simp: groupEvents_def)
qed

lemma isSame_eq: "isSame a b = (a = b)"
  by (cases a, cases b) (auto simp: isSame_def)

lemma some_iff: "some xs q = (\<exists>x \<in> set xs. q x)"
  by (induction xs) auto

section \<open>Arithmetic of weeks\<close>

lemma div_next:
  fixes a k :: int
  assumes "0 < k"
  shows "(a + 1) div k = a div k + (if (a + 1) mod k = 0 then 1 else 0)"
proof -
  define q r where "q = a div k" and "r = a mod k"
  have a: "a = q * k + r" and r: "0 \<le> r" "r < k" by (simp_all add: q_def r_def assms)
  show ?thesis
  proof (cases "r + 1 = k")
    case True
    then have e: "a + 1 = (q + 1) * k" using a by (simp add: algebra_simps)
    have "(a + 1) div k = q + 1" "(a + 1) mod k = 0" unfolding e using assms by simp_all
    then show ?thesis by (simp add: q_def)
  next
    case False
    with r have r1: "0 \<le> r + 1" "r + 1 < k" by simp_all
    have e: "a + 1 = q * k + (r + 1)" using a by simp
    have "(a + 1) div k = q" unfolding e using r1 assms by (simp add: div_pos_pos_trivial)
    moreover have "(a + 1) mod k = r + 1" unfolding e using r1 assms by (simp add: mod_pos_pos_trivial)
    ultimately show ?thesis using r by (simp add: q_def)
  qed
qed

lemma mod7_small: "0 \<le> c \<Longrightarrow> c < 7 \<Longrightarrow> c mod 7 = c" for c :: int
  by simp

lemma mod7_eq_iff: "0 \<le> c \<Longrightarrow> c < 7 \<Longrightarrow> (a mod 7 = c) = (7 dvd a - c)" for a c :: int
  using mod_eq_dvd_iff [of a 7 c] by simp

lemma wd_zero:
  fixes w m :: int
  assumes "0 \<le> w" "w \<le> 6" "0 \<le> m" "m < 7" "(w - m) mod 7 = 0"
  shows "m = w"
proof -
  from assms(5) have "7 dvd w - m" by (simp add: mod_eq_0_iff_dvd)
  then obtain k where k: "w - m = 7 * k" by (auto simp: dvd_def)
  with assms(1-4) have "k = 0" by arith
  with k show ?thesis by simp
qed

lemma wd_step: "(w - (m + 1) mod 7) mod 7 = ((w - m) mod 7 - 1) mod 7" for w m :: int
  by (simp add: mod_simps diff_diff_eq)

lemma wd_after: "(w - (m + ((w - m) mod 7 + 1)) mod 7) mod 7 = 6" for w m :: int
proof -
  define q where "q = (w - m) div 7"
  have "w - m = 7 * q + (w - m) mod 7" by (simp add: q_def)
  then have e: "w - (m + ((w - m) mod 7 + 1)) = 7 * q + (- 1)" by simp
  have "(w - (m + ((w - m) mod 7 + 1)) mod 7) mod 7 = (w - (m + ((w - m) mod 7 + 1))) mod 7"
    by (rule mod_diff_right_eq)
  also have "\<dots> = (- 1) mod 7" by (simp only: e mod_mult_self4)
  finally show ?thesis by simp
qed

lemma wd_match:
  fixes w m j :: int
  assumes "0 \<le> w" "w \<le> 6"
  shows "((m + j) mod 7 = w) = (j mod 7 = (w - m) mod 7)"
proof -
  have "((m + j) mod 7 = w) = (7 dvd m + j - w)" using assms by (simp add: mod7_eq_iff)
  also have "m + j - w = j - (w - m)" by simp
  also have "(7 dvd j - (w - m)) = (j mod 7 = (w - m) mod 7)" by (simp add: mod_eq_dvd_iff)
  finally show ?thesis .
qed

lemma count_step:
  fixes c D :: int
  assumes "0 \<le> c" "c < 7"
  shows "(D + 1 + 6 - c) div 7 = (D + 6 - c) div 7 + (if D mod 7 = c then 1 else 0)"
proof -
  have "(D + 6 - c + 1) mod 7 = (D - c) mod 7"
  proof -
    have "D + 6 - c + 1 = (D - c) + 7" by simp
    then show ?thesis by (simp only: mod_add_self2)
  qed
  moreover have "((D - c) mod 7 = 0) = (D mod 7 = c)"
    using assms by (simp add: mod7_eq_iff mod_eq_0_iff_dvd)
  ultimately have "((D + 6 - c + 1) mod 7 = 0) = (D mod 7 = c)" by simp
  moreover have "D + 1 + 6 - c = D + 6 - c + 1" by simp
  ultimately show ?thesis using div_next [of 7 "D + 6 - c"] by simp
qed

lemma nth_arith:
  fixes c D n :: int
  assumes "0 \<le> c" "c < 7"
  shows "((D - 1) mod 7 = c \<and> (D + 6 - c) div 7 = n) = (c + 7 * (n - 1) = D - 1)"
proof
  assume a: "(D - 1) mod 7 = c \<and> (D + 6 - c) div 7 = n"
  define q where "q = (D - 1) div 7"
  have "D - 1 = 7 * q + (D - 1) mod 7" by (simp add: q_def)
  with a have d: "D - 1 = 7 * q + c" by simp
  then have "D + 6 - c = 7 * (q + 1)" by simp
  then have "(D + 6 - c) div 7 = q + 1" by simp
  with a have "q = n - 1" by simp
  with d show "c + 7 * (n - 1) = D - 1" by simp
next
  assume e: "c + 7 * (n - 1) = D - 1"
  then have "D - 1 = c + 7 * (n - 1)" by simp
  then have "(D - 1) mod 7 = c mod 7" by (simp only: mod_mult_self2)
  then have m: "(D - 1) mod 7 = c" using assms by simp
  from e have "D + 6 - c = 7 * n" by simp
  then have "(D + 6 - c) div 7 = n" by simp
  with m show "(D - 1) mod 7 = c \<and> (D + 6 - c) div 7 = n" by simp
qed

section \<open>The calendar\<close>

lemma daysInMonth_bounds: "28 \<le> daysInMonth y m \<and> daysInMonth y m \<le> 31"
  by (simp add: daysInMonth_def)

lemma valid_add1: "valid x \<Longrightarrow> valid (add1 x)"
  using daysInMonth_bounds [of "year x" "month x + 1"] daysInMonth_bounds [of "year x + 1" 0]
  by (auto simp: valid_def add1_def)

lemma valid_sub1: "valid x \<Longrightarrow> valid (sub1 x)"
  using daysInMonth_bounds [of "year x" "month x - 1"]
  by (auto simp: valid_def sub1_def daysInMonth_def)

lemma sub1_add1: "valid x \<Longrightarrow> sub1 (add1 x) = x"
  using daysInMonth_bounds [of "year x" "month x"]
  by (cases x) (auto simp: valid_def add1_def sub1_def daysInMonth_def)

lemma add1_sub1: "valid x \<Longrightarrow> add1 (sub1 x) = x"
  using daysInMonth_bounds [of "year x" "month x - 1"]
  by (cases x) (auto simp: valid_def add1_def sub1_def daysInMonth_def)

lemma daysBeforeMonth_0: "daysBeforeMonth y 0 = 0"
  by (simp add: daysBeforeMonth_def)

lemma daysBeforeMonth_next: "0 \<le> m \<Longrightarrow> daysBeforeMonth y (m + 1) = daysBeforeMonth y m + daysInMonth y m"
proof -
  assume "0 \<le> m"
  then have "nat (m + 1) = Suc (nat m)" by arith
  with \<open>0 \<le> m\<close> show ?thesis by (simp add: daysBeforeMonth_def)
qed

lemma daysBeforeMonth_12: "daysBeforeMonth y 12 = daysInYear y"
proof -
  have "[0..<12::nat] = [0, 1, 2, 3, 4, 5, 6, 7, 8, 9, 10, 11]" by code_simp
  then show ?thesis
    by (simp add: daysBeforeMonth_def daysInMonth_def daysInYear_def)
qed

lemma daysBeforeYear_next: "daysBeforeYear (y + 1) = daysBeforeYear y + daysInYear y"
proof -
  define b4 b100 b400 :: int where "b4 = (if y mod 4 = 0 then 1 else 0)"
    and "b100 = (if y mod 100 = 0 then 1 else 0)" and "b400 = (if y mod 400 = 0 then 1 else 0)"
  define d4 d100 d400 where "d4 = (y - 1) div 4" and "d100 = (y - 1) div 100" and "d400 = (y - 1) div 400"
  have a4: "y div 4 = d4 + b4" using div_next [of 4 "y - 1"] by (simp add: b4_def d4_def)
  have a100: "y div 100 = d100 + b100" using div_next [of 100 "y - 1"] by (simp add: b100_def d100_def)
  have a400: "y div 400 = d400 + b400" using div_next [of 400 "y - 1"] by (simp add: b400_def d400_def)
  have m1: "b400 = 1 \<Longrightarrow> b100 = 1"
    using mod_mod_cancel [of 100 400 y] by (simp add: b400_def b100_def split: if_splits)
  have m2: "b100 = 1 \<Longrightarrow> b4 = 1"
    using mod_mod_cancel [of 4 100 y] by (simp add: b4_def b100_def split: if_splits)
  have bs: "b4 = 0 \<or> b4 = 1" "b100 = 0 \<or> b100 = 1" "b400 = 0 \<or> b400 = 1"
    by (simp_all add: b4_def b100_def b400_def)
  have diy: "daysInYear y = 365 + b4 - b100 + b400"
    using m1 m2 by (auto simp: daysInYear_def isLeapYear_def b4_def b100_def b400_def split: if_splits)
  have "daysBeforeYear (y + 1) = 365 * y + (d4 + b4) - (d100 + b100) + (d400 + b400)"
    by (simp add: daysBeforeYear_def a4 a100 a400)
  moreover have "daysBeforeYear y = 365 * (y - 1) + d4 - d100 + d400"
    by (simp add: daysBeforeYear_def d4_def d100_def d400_def)
  ultimately show ?thesis by (simp add: diy)
qed

lemma dayNumber_add1: "valid x \<Longrightarrow> dayNumber (add1 x) = dayNumber x + 1"
  using daysBeforeMonth_next [of "month x" "year x"] daysBeforeMonth_12 [of "year x"]
    daysBeforeYear_next [of "year x"]
  by (auto simp: valid_def add1_def dayNumber_def dayOfYear_def daysBeforeMonth_0)

lemma dayNumber_sub1: "valid x \<Longrightarrow> dayNumber (sub1 x) = dayNumber x - 1"
  using dayNumber_add1 [of "sub1 x"] by (simp add: valid_sub1 add1_sub1)

lemma momentDay_add1: "valid x \<Longrightarrow> momentDay (add1 x) = (momentDay x + 1) mod 7"
  by (simp add: momentDay_def dayNumber_add1 mod_simps)

lemma addDays_0: "addDays x 0 = x"
  by (simp add: addDays_def)

lemma addDays_1: "addDays x 1 = add1 x"
  by (simp add: addDays_def)

lemma addDays_m1: "addDays x (- 1) = sub1 x"
  by (simp add: addDays_def)

lemma addDays_pos: "0 < i \<Longrightarrow> addDays x i = add1 (addDays x (i - 1))"
proof -
  assume "0 < i"
  then have "nat i = Suc (nat (i - 1))" by arith
  with \<open>0 < i\<close> show ?thesis by (simp add: addDays_def)
qed

lemma addDays_neg: "i < 0 \<Longrightarrow> addDays x i = sub1 (addDays x (i + 1))"
proof -
  assume "i < 0"
  then have "nat (- i) = Suc (nat (- (i + 1)))" by arith
  with \<open>i < 0\<close> show ?thesis by (cases "i = -1") (simp_all add: addDays_def)
qed

lemma addDays_code [code]:
  "addDays x i =
     (if i = 0 then x else if 0 < i then add1 (addDays x (i - 1)) else sub1 (addDays x (i + 1)))"
  by (simp add: addDays_0 addDays_pos addDays_neg)

lemma addDays_nat_props:
  "valid x \<Longrightarrow> valid ((add1 ^^ k) x) \<and> dayNumber ((add1 ^^ k) x) = dayNumber x + int k"
  by (induction k) (simp_all add: valid_add1 dayNumber_add1)

lemma subDays_nat_props:
  "valid x \<Longrightarrow> valid ((sub1 ^^ k) x) \<and> dayNumber ((sub1 ^^ k) x) = dayNumber x - int k"
  by (induction k) (simp_all add: valid_sub1 dayNumber_sub1)

lemma valid_addDays: "valid x \<Longrightarrow> valid (addDays x i)"
  by (simp add: addDays_def addDays_nat_props subDays_nat_props)

lemma dayNumber_addDays: "valid x \<Longrightarrow> dayNumber (addDays x i) = dayNumber x + i"
  by (simp add: addDays_def addDays_nat_props subDays_nat_props)

lemma momentDay_addDays: "valid x \<Longrightarrow> momentDay (addDays x i) = (momentDay x + i) mod 7"
  by (simp add: momentDay_def dayNumber_addDays mod_simps)

lemma addDays_succ: "valid x \<Longrightarrow> addDays x (i + 1) = add1 (addDays x i)"
proof (cases "0 \<le> i")
  case True
  then show ?thesis using addDays_pos [of "i + 1" x] by simp
next
  case False
  assume v: "valid x"
  from False have "addDays x i = sub1 (addDays x (i + 1))" by (simp add: addDays_neg)
  with v show ?thesis by (simp add: add1_sub1 valid_addDays)
qed

lemma addDays_add_nat: "valid x \<Longrightarrow> addDays (addDays x i) (int k) = addDays x (i + int k)"
proof (induction k)
  case 0
  then show ?case by (simp add: addDays_0)
next
  case (Suc k)
  have "int (Suc k) = int k + 1" by simp
  then have "addDays (addDays x i) (int (Suc k)) = add1 (addDays (addDays x i) (int k))"
    using addDays_succ [of "addDays x i" "int k"] Suc.prems by (simp only: valid_addDays)
  also have "\<dots> = add1 (addDays x (i + int k))" using Suc by simp
  also have "\<dots> = addDays x (i + int k + 1)"
    using addDays_succ [of x "i + int k"] Suc.prems by simp
  also have "i + int k + 1 = i + int (Suc k)" by simp
  finally show ?case .
qed

lemma isBefore_add1: "valid x \<Longrightarrow> isBefore x (add1 x)"
  by (auto simp: isBefore_def add1_def valid_def)

lemma isBefore_trans: "isBefore a b \<Longrightarrow> isBefore b c \<Longrightarrow> isBefore a c"
  by (auto simp: isBefore_def)

lemma isBefore_irrefl: "\<not> isBefore a a"
  by (simp add: isBefore_def)

lemma isBefore_addDays_nat: "valid x \<Longrightarrow> isBefore x (addDays x (int (Suc k)))"
proof (induction k)
  case 0
  then show ?case by (simp add: addDays_1 isBefore_add1)
next
  case (Suc k)
  have "int (Suc (Suc k)) = int (Suc k) + 1" by simp
  then have "addDays x (int (Suc (Suc k))) = add1 (addDays x (int (Suc k)))"
    using addDays_succ [of x "int (Suc k)"] Suc.prems by (simp only:)
  moreover have "isBefore (addDays x (int (Suc k))) (add1 (addDays x (int (Suc k))))"
    using Suc.prems by (simp add: isBefore_add1 valid_addDays)
  ultimately show ?case using Suc isBefore_trans by metis
qed

lemma isBefore_addDays: "valid x \<Longrightarrow> i < j \<Longrightarrow> isBefore (addDays x i) (addDays x j)"
proof -
  assume v: "valid x" and "i < j"
  define k where "k = nat (j - i - 1)"
  from \<open>i < j\<close> have k: "j = i + int (Suc k)" by (simp add: k_def)
  have "addDays x j = addDays (addDays x i) (int (Suc k))"
    using addDays_add_nat [OF v, of i "Suc k"] k by simp
  then show ?thesis using isBefore_addDays_nat [of "addDays x i" k] v by (simp add: valid_addDays)
qed

section \<open>The range of days\<close>

lemma range_lodash_nonneg: "0 \<le> n \<Longrightarrow> range_lodash 0 n = map int [0..<nat n]"
  by (auto simp: range_lodash_def Let_def)

lemma range_lodash_neg: "n \<le> 0 \<Longrightarrow> range_lodash 0 n = map (\<lambda>k. - int k) [0..<nat (- n)]"
  by (auto simp: range_lodash_def Let_def)

section \<open>The loop of isHeavyDay\<close>

subsection \<open>When it never ends\<close>

lemma heavyLoop_never:
  assumes "heavyLoop p d occ = Some r"
  shows "\<not> (js_lt (Num occ) (junkWeekOfMonth p) \<and> (\<forall>x. \<not> js_eq (Num (momentDay x)) (junkDay p)))"
  by (rule heavyLoop.raw_induct
        [where P = "\<lambda>p d occ r. \<not> (js_lt (Num occ) (junkWeekOfMonth p) \<and>
                                 (\<forall>x. \<not> js_eq (Num (momentDay x)) (junkDay p)))",
         OF _ assms])
     (auto split: if_splits)

lemma heavyLoop_diverges:
  "js_lt (Num occ) (junkWeekOfMonth p) \<Longrightarrow> (\<forall>x. \<not> js_eq (Num (momentDay x)) (junkDay p)) \<Longrightarrow>
   heavyLoop p d occ = None"
  using heavyLoop_never [of p d occ] by (cases "heavyLoop p d occ") auto

lemma isHeavyDay_diverges:
  "js_lt (Num 0) (junkWeekOfMonth p) \<Longrightarrow> (\<forall>x. \<not> js_eq (Num (momentDay x)) (junkDay p)) \<Longrightarrow>
   isHeavyDay p d = None"
  by (simp add: isHeavyDay_def heavyLoop_diverges)

lemma getCategoriesForDay_diverges:
  "isHeavyDay p d = None \<Longrightarrow> getCategoriesForDay p d = None"
  by (simp add: getCategoriesForDay_def isJunkDay_def isTreeDay_def split: option.splits)

lemma getUpcomingEvents_diverges:
  assumes "\<And>d. isHeavyDay p d = None" and "n \<noteq> 0"
  shows "getUpcomingEvents p hol today n = None"
proof -
  from assms(2) obtain i rest where "range_lodash 0 n = i # rest"
    by (cases "0 \<le> n") (auto simp: range_lodash_nonneg range_lodash_neg upt_conv_Cons)
  then show ?thesis
    by (simp add: getUpcomingEvents_def groupEvents_def getCategoriesForDay_diverges assms(1))
qed

subsection \<open>When it ends\<close>

lemma momentDay_range: "0 \<le> momentDay x \<and> momentDay x < 7"
  by (simp add: momentDay_def)

lemma heavyLoop_done: "\<not> js_lt (Num occ) (junkWeekOfMonth p) \<Longrightarrow> heavyLoop p d occ = Some d"
  by (subst heavyLoop.simps) simp

lemma heavyLoop_skip:
  assumes n: "junkWeekOfMonth p = Num n" and w: "junkDay p = Num w" "0 \<le> w" "w \<le> 6"
    and occ: "occ < n"
  shows "valid d \<Longrightarrow> nat ((w - momentDay d) mod 7) = k \<Longrightarrow>
         heavyLoop p d occ = heavyLoop p (addDays d (int k + 1)) (occ + 1)"
proof (induction k arbitrary: d)
  case 0
  then have z: "(w - momentDay d) mod 7 = 0" by simp
  have "momentDay d = w"
    by (rule wd_zero [OF w(2) w(3) _ _ z]) (simp_all add: momentDay_range)
  then show ?case using n w occ by (subst heavyLoop.simps) (simp add: addDays_1)
next
  case (Suc k)
  then have k: "(w - momentDay d) mod 7 = int k + 1" by simp
  have ne: "momentDay d \<noteq> w"
  proof
    assume "momentDay d = w"
    with k show False by simp
  qed
  have "(w - momentDay (add1 d)) mod 7 = ((w - momentDay d) mod 7 - 1) mod 7"
    using Suc.prems(1) by (simp only: momentDay_add1 wd_step)
  also have "\<dots> = int k mod 7" by (simp only: k) simp
  also have "\<dots> = int k"
  proof -
    have "(w - momentDay d) mod 7 < 7" by simp
    with k have "int k < 7" by simp
    then show ?thesis by simp
  qed
  finally have k': "nat ((w - momentDay (add1 d)) mod 7) = k" by simp
  have "heavyLoop p d occ = heavyLoop p (add1 d) occ"
    using n w occ ne by (subst heavyLoop.simps) (simp add: addDays_1)
  also have "\<dots> = heavyLoop p (addDays (add1 d) (int k + 1)) (occ + 1)"
    using Suc.IH [OF _ k'] Suc.prems(1) by (simp add: valid_add1)
  also have "addDays (add1 d) (int k + 1) = addDays d (int (Suc k) + 1)"
    using addDays_add_nat [OF Suc.prems(1), of 1 "Suc k"] by (simp add: addDays_1 add.commute)
  finally show ?case .
qed


lemma heavyLoop_closed:
  assumes n: "junkWeekOfMonth p = Num n" and w: "junkDay p = Num w" "0 \<le> w" "w \<le> 6"
  shows "valid d \<Longrightarrow> occ < n \<Longrightarrow> nat (n - occ - 1) = m \<Longrightarrow>
         heavyLoop p d occ = Some (addDays d ((w - momentDay d) mod 7 + 1 + 7 * (n - occ - 1)))"
proof (induction m arbitrary: d occ)
  case 0
  then have e: "n = occ + 1" by simp
  let ?k = "nat ((w - momentDay d) mod 7)"
  have ik: "int ?k = (w - momentDay d) mod 7" by simp
  have "heavyLoop p d occ = heavyLoop p (addDays d (int ?k + 1)) (occ + 1)"
    by (rule heavyLoop_skip [OF n w "0.prems"(2) "0.prems"(1) refl])
  also have "\<dots> = Some (addDays d (int ?k + 1))"
    by (rule heavyLoop_done) (simp add: n e)
  finally show ?case by (simp only: ik e) simp
next
  case (Suc m)
  let ?k = "nat ((w - momentDay d) mod 7)"
  let ?d = "addDays d (int ?k + 1)"
  have ik: "int ?k = (w - momentDay d) mod 7" by simp
  have v: "valid ?d" using Suc.prems(1) by (rule valid_addDays)
  have occ': "occ + 1 < n" using Suc.prems by simp
  have m': "nat (n - (occ + 1) - 1) = m" using Suc.prems by simp
  have wd: "(w - momentDay ?d) mod 7 = 6"
    using Suc.prems(1) by (simp only: momentDay_addDays ik wd_after)
  have "heavyLoop p d occ = heavyLoop p ?d (occ + 1)"
    by (rule heavyLoop_skip [OF n w Suc.prems(2) Suc.prems(1) refl])
  also have "\<dots> = Some (addDays ?d ((w - momentDay ?d) mod 7 + 1 + 7 * (n - (occ + 1) - 1)))"
    by (rule Suc.IH [OF v occ' m'])
  also have "(w - momentDay ?d) mod 7 + 1 + 7 * (n - (occ + 1) - 1) = int (nat (7 * (n - occ - 1)))"
    using occ' by (simp only: wd) simp
  also have "addDays ?d (int (nat (7 * (n - occ - 1)))) = addDays d (int ?k + 1 + int (nat (7 * (n - occ - 1))))"
    by (rule addDays_add_nat [OF Suc.prems(1)])
  also have "int ?k + 1 + int (nat (7 * (n - occ - 1))) = (w - momentDay d) mod 7 + 1 + 7 * (n - occ - 1)"
    using occ' by (simp only: ik) simp
  finally show ?case .
qed

lemma addDays_back: "valid x \<Longrightarrow> addDays (addDays x (i + 1)) (- 1) = addDays x i"
  by (simp add: addDays_m1 addDays_succ sub1_add1 valid_addDays)

lemma valid_startOfMonth: "valid d \<Longrightarrow> valid (startOfMonth d)"
  using daysInMonth_bounds [of "year d" "month d"] by (simp add: valid_def startOfMonth_def)

lemma isHeavyDay_closed:
  assumes n: "junkWeekOfMonth p = Num n" "1 \<le> n" and w: "junkDay p = Num w" "0 \<le> w" "w \<le> 6"
    and v: "valid d"
  shows "isHeavyDay p d = Some (addDays (startOfMonth d) (heavyOffset n w d) = d)"
proof -
  let ?f = "startOfMonth d"
  have vf: "valid ?f" using v by (rule valid_startOfMonth)
  have "heavyLoop p ?f 0 = Some (addDays ?f ((w - momentDay ?f) mod 7 + 1 + 7 * (n - 0 - 1)))"
    by (rule heavyLoop_closed [OF n(1) w vf _ refl]) (use n(2) in simp)
  also have "(w - momentDay ?f) mod 7 + 1 + 7 * (n - 0 - 1) = heavyOffset n w d + 1"
    by (simp add: heavyOffset_def)
  finally show ?thesis
    by (simp add: isHeavyDay_def isSame_eq addDays_back [OF vf])
qed

lemma isHeavyDay_no_rule:
  assumes "\<not> js_lt (Num 0) (junkWeekOfMonth p)"
  shows "isHeavyDay p d = Some False"
proof -
  have "heavyLoop p (startOfMonth d) 0 = Some (startOfMonth d)"
    using assms by (rule heavyLoop_done)
  moreover have "\<not> isSame (sub1 (startOfMonth d)) d"
    by (auto simp: isSame_def sub1_def startOfMonth_def)
  ultimately show ?thesis by (simp add: isHeavyDay_def addDays_m1)
qed

subsection \<open>The n-th weekday of the month\<close>

lemma addDays_in_month:
  "date x + int j \<le> daysInMonth (year x) (month x) \<Longrightarrow> addDays x (int j) = x\<lparr>date := date x + int j\<rparr>"
proof (induction j)
  case 0
  then show ?case by (simp add: addDays_0)
next
  case (Suc j)
  have "int (Suc j) = int j + 1" by simp
  have "addDays x (int (Suc j)) = add1 (addDays x (int j))"
    using addDays_pos [of "int (Suc j)" x] by simp
  also have "\<dots> = add1 (x\<lparr>date := date x + int j\<rparr>)" using Suc by simp
  also have "\<dots> = x\<lparr>date := date x + int (Suc j)\<rparr>" using Suc.prems by (simp add: add1_def)
  finally show ?case .
qed

lemma date_from_start:
  assumes "valid d"
  shows "d = addDays (startOfMonth d) (date d - 1)"
proof -
  define j where "j = nat (date d - 1)"
  have j: "int j = date d - 1" using assms by (simp add: j_def valid_def)
  have "addDays (startOfMonth d) (int j) = (startOfMonth d)\<lparr>date := date (startOfMonth d) + int j\<rparr>"
    by (rule addDays_in_month) (use assms in \<open>simp add: j valid_def startOfMonth_def\<close>)
  then have "addDays (startOfMonth d) (date d - 1) = d"
    by (simp add: j startOfMonth_def)
  then show ?thesis by (rule sym)
qed

lemma addDays_inj:
  assumes v: "valid x" and e: "addDays x i = addDays x j"
  shows "i = j"
proof -
  from e have "dayNumber (addDays x i) = dayNumber (addDays x j)" by (rule arg_cong)
  then have "dayNumber x + i = dayNumber x + j" by (simp only: dayNumber_addDays [OF v])
  then show ?thesis by simp
qed

lemma momentDay_in_month:
  assumes "valid d" "1 \<le> k" "k \<le> date d"
  shows "momentDay (d\<lparr>date := k\<rparr>) = (momentDay (startOfMonth d) + (k - 1)) mod 7"
proof -
  let ?e = "d\<lparr>date := k\<rparr>"
  have v: "valid ?e" using assms by (simp add: valid_def)
  have s: "startOfMonth ?e = startOfMonth d" by (simp add: startOfMonth_def)
  have "?e = addDays (startOfMonth d) (k - 1)" using date_from_start [OF v] by (simp add: s)
  then have "momentDay ?e = momentDay (addDays (startOfMonth d) (k - 1))" by simp
  also have "\<dots> = (momentDay (startOfMonth d) + (k - 1)) mod 7"
    by (rule momentDay_addDays) (rule valid_startOfMonth [OF assms(1)])
  finally show ?thesis .
qed

lemma count_residue:
  assumes c: "0 \<le> c" "c < 7"
  shows "int (length (filter (\<lambda>k. (k - 1) mod 7 = c) [1..int D])) = (int D + 6 - c) div 7"
proof (induction D)
  case 0
  from c show ?case by simp
next
  case (Suc D)
  have "[1..int (Suc D)] = [1..int D] @ [int D + 1]"
    using upto_rec2 [of 1 "int D + 1"] by (simp add: add.commute)
  then show ?case using Suc count_step [OF c, of "int D"] by (simp add: add.commute)
qed

lemma nthWeekdayOfMonth_offset:
  assumes v: "valid d" and w: "0 \<le> w" "w \<le> 6"
  shows "nthWeekdayOfMonth n w d = (heavyOffset n w d = date d - 1)"
proof -
  let ?a = "momentDay (startOfMonth d)"
  let ?c = "(w - ?a) mod 7"
  have D: "1 \<le> date d" using v by (simp add: valid_def)
  have c: "0 \<le> ?c" "?c < 7" by simp_all
  have "filter (\<lambda>k. momentDay (d\<lparr>date := k\<rparr>) = w) [1..date d] =
        filter (\<lambda>k. (k - 1) mod 7 = ?c) [1..date d]"
    by (rule filter_cong [OF refl]) (simp add: momentDay_in_month [OF v] wd_match [OF w])
  moreover have "int (length (filter (\<lambda>k. (k - 1) mod 7 = ?c) [1..date d])) = (date d + 6 - ?c) div 7"
    using count_residue [OF c, of "nat (date d)"] D by simp
  moreover have "momentDay d = (?a + (date d - 1)) mod 7"
    using momentDay_in_month [OF v D order_refl] by simp
  ultimately have "nthWeekdayOfMonth n w d = ((date d - 1) mod 7 = ?c \<and> (date d + 6 - ?c) div 7 = n)"
    by (simp add: nthWeekdayOfMonth_def wd_match [OF w])
  also have "\<dots> = (?c + 7 * (n - 1) = date d - 1)" by (rule nth_arith [OF c])
  finally show ?thesis by (simp add: heavyOffset_def)
qed

lemma isHeavyDay_nth:
  assumes n: "junkWeekOfMonth p = Num n" "1 \<le> n" and w: "junkDay p = Num w" "0 \<le> w" "w \<le> 6"
    and v: "valid d"
  shows "isHeavyDay p d = Some (nthWeekdayOfMonth n w d)"
proof -
  have vf: "valid (startOfMonth d)" using v by (rule valid_startOfMonth)
  have e: "d = addDays (startOfMonth d) (date d - 1)" by (rule date_from_start [OF v])
  have "(addDays (startOfMonth d) (heavyOffset n w d) = d) = (heavyOffset n w d = date d - 1)"
  proof
    assume "addDays (startOfMonth d) (heavyOffset n w d) = d"
    from this e have "addDays (startOfMonth d) (heavyOffset n w d) = addDays (startOfMonth d) (date d - 1)"
      by (rule trans)
    then show "heavyOffset n w d = date d - 1" by (rule addDays_inj [OF vf])
  next
    assume "heavyOffset n w d = date d - 1"
    then have "addDays (startOfMonth d) (heavyOffset n w d) = addDays (startOfMonth d) (date d - 1)"
      by (rule arg_cong)
    from this e [symmetric] show "addDays (startOfMonth d) (heavyOffset n w d) = d" by (rule trans)
  qed
  then show ?thesis
    by (simp add: isHeavyDay_closed [OF n w v] nthWeekdayOfMonth_offset [OF v w(2) w(3)])
qed

subsection \<open>Which rules make it end\<close>

lemma momentDay_le: "momentDay x \<le> 6"
  using momentDay_range [of x] by simp

lemma momentDay_ge: "0 \<le> momentDay x"
  using momentDay_range [of x] by simp

lemma not_heavyReturns_diverges:
  assumes "\<not> heavyReturns p"
  shows "isHeavyDay p d = None"
proof (rule isHeavyDay_diverges)
  show "js_lt (Num 0) (junkWeekOfMonth p)" using assms by (simp add: heavyReturns_def)
  show "\<forall>x. \<not> js_eq (Num (momentDay x)) (junkDay p)"
    using assms by (cases "junkDay p") (auto simp: heavyReturns_def momentDay_le momentDay_ge)
qed

lemma heavyReturns_returns:
  assumes "heavyReturns p" and v: "valid d"
  shows "isHeavyDay p d \<noteq> None"
proof (cases "js_lt (Num 0) (junkWeekOfMonth p)")
  case False
  then show ?thesis by (simp add: isHeavyDay_no_rule)
next
  case True
  then obtain n where n: "junkWeekOfMonth p = Num n" "1 \<le> n"
    by (cases "junkWeekOfMonth p") auto
  from True assms(1) obtain w where w: "junkDay p = Num w" "0 \<le> w" "w \<le> 6"
    by (cases "junkDay p") (auto simp: heavyReturns_def)
  show ?thesis by (simp add: isHeavyDay_closed [OF n w v])
qed

lemma getCategoriesForDay_returns:
  "heavyReturns p \<Longrightarrow> valid d \<Longrightarrow> getCategoriesForDay p d \<noteq> None"
  using heavyReturns_returns [of p d]
  by (auto simp: getCategoriesForDay_def isJunkDay_def isTreeDay_def split: option.splits)

lemma getUpcomingEvents_returns:
  assumes "heavyReturns p" and "valid today"
  shows "getUpcomingEvents p hol today n \<noteq> None"
proof -
  have "those (map (groupEvents p hol) (map (\<lambda>i. addDays today i) (range_lodash 0 n))) \<noteq> None"
  proof (rule those_map_total)
    fix d assume "d \<in> set (map (\<lambda>i. addDays today i) (range_lodash 0 n))"
    then have "valid d" using assms(2) by (auto simp: valid_addDays)
    with assms(1) have "getCategoriesForDay p d \<noteq> None" by (rule getCategoriesForDay_returns)
    then show "groupEvents p hol d \<noteq> None" by (simp add: groupEvents_def)
  qed
  then show ?thesis by (simp add: getUpcomingEvents_def)
qed

section \<open>The window\<close>

lemma upcoming_days:
  assumes "getUpcomingEvents p hol today n = Some evs"
  shows "map day evs =
         filter (\<lambda>d. getCategoriesForDay p d \<noteq> Some []) (map (\<lambda>i. addDays today i) (range_lodash 0 n))"
proof -
  have gen: "those (map (groupEvents p hol) ds) = Some all \<Longrightarrow>
             map day (filter (\<lambda>event. length (categories event) \<noteq> 0) all) =
             filter (\<lambda>d. getCategoriesForDay p d \<noteq> Some []) ds" for ds all
    by (induction ds arbitrary: all) (auto simp: groupEvents_def split: option.splits)
  from assms obtain all where
    "those (map (groupEvents p hol) (map (\<lambda>i. addDays today i) (range_lodash 0 n))) = Some all"
    and "evs = filter (\<lambda>event. length (categories event) \<noteq> 0) all"
    by (auto simp: getUpcomingEvents_def)
  then show ?thesis using gen by blast
qed

lemma sorted_window_up: "valid today \<Longrightarrow> sorted_wrt isBefore (map (\<lambda>i. addDays today i) (map int [0..<k]))"
  by (induction k) (auto simp: sorted_wrt_append isBefore_addDays)

lemma sorted_window_down:
  "valid today \<Longrightarrow> sorted_wrt (\<lambda>a b. isBefore b a) (map (\<lambda>i. addDays today i) (map (\<lambda>k. - int k) [0..<k]))"
  by (induction k) (auto simp: sorted_wrt_append isBefore_addDays)

section \<open>What parseData stores\<close>

lemma parseData_wasteDay:
  "wasteDay (parseData w j r) = (if isValidData w then getDayIndex (fieldOf w) else Num (- 1))"
  by (simp add: parseData_def Let_def split: prod.splits)

lemma parseData_junkWeekOfMonth:
  "junkWeekOfMonth (parseData w j r) =
     (if isValidData j then parseInt (substr (fieldOf j) 0 1) else Num (- 1))"
  by (simp add: parseData_def Let_def split: prod.splits)

lemma parseData_junkDay:
  "junkDay (parseData w j r) =
     (if isValidData j then getDayIndex (substrFrom (fieldOf j) (indexOf (fieldOf j) CHR '' ''))
      else Num (- 1))"
  by (simp add: parseData_def Let_def split: prod.splits)

lemma parseData_recyclingDay:
  "recyclingDay (parseData w j r) =
     (if isValidData r then getDayIndex (splitFirst (fieldOf r) CHR ''-'') else Num (- 1))"
  by (simp add: parseData_def Let_def split: prod.splits)

lemma parseData_recyclingOnEvenWeeks:
  "recyclingOnEvenWeeks (parseData w j r) =
     (if isValidData r then \<not> includes_str (fieldOf r) ''-A'' else False)"
  by (simp add: parseData_def Let_def split: prod.splits)

lemma parse_heavy_without_weekday:
  "junkWeekOfMonth (parseData w (Some \<lparr>features = Some [\<lparr>attributes = Some ''3 Foo''\<rparr>]\<rparr>) r) = Num 3 \<and>
   junkDay (parseData w (Some \<lparr>features = Some [\<lparr>attributes = Some ''3 Foo''\<rparr>]\<rparr>) r) = NaN"
proof -
  let ?j = "Some \<lparr>features = Some [\<lparr>attributes = Some ''3 Foo''\<rparr>]\<rparr>"
  have a: "(if isValidData ?j then parseInt (substr (fieldOf ?j) 0 1) else Num (- 1)) = Num 3"
    by code_simp
  have b: "(if isValidData ?j
            then getDayIndex (substrFrom (fieldOf ?j) (indexOf (fieldOf ?j) CHR '' ''))
            else Num (- 1)) = NaN"
    by code_simp
  show ?thesis by (simp only: parseData_junkWeekOfMonth parseData_junkDay a b)
qed

section \<open>Weekday names\<close>

lemma lower_letter: "isLower (toLower c) \<Longrightarrow> isLower c \<or> isUpper c"
  by (cases "isUpper c") (simp_all add: toLower_def)

lemma letter_props:
  assumes "isLower c \<or> isUpper c"
  shows "isWordChar c" "\<not> isDigit c" "c \<noteq> CHR ''-''"
  using assms by (auto simp: isWordChar_def isDigit_def isLower_def isUpper_def)

lemma matchWord_letters:
  assumes "w \<noteq> []" and "\<forall>c \<in> set w. isLower c \<or> isUpper c"
    and "rest = [] \<or> \<not> isWordChar (hd rest)"
  shows "matchWord (w @ rest) = Some w"
proof -
  from assms(1) obtain c cs where w: "w = c # cs" by (cases w) auto
  have all: "\<forall>c \<in> set w. isWordChar c" using assms(2) letter_props(1) by blast
  have c: "\<not> isDigit c" "isWordChar c" using assms(2) w letter_props by auto
  have "takeWhile isWordChar (w @ rest) = w"
    using all assms(3) by (cases rest) (auto simp: takeWhile_append2 intro: takeWhile_eq_all_conv [THEN iffD2])
  then show ?thesis using c by (simp add: w Let_def)
qed

lemma lowered_names:
  "map (\<lambda>(i, long, short, mn). (i, map toLower long, map toLower short, map toLower mn)) weekdayNames =
     [(0, ''sunday'', ''sun'', ''su''), (1, ''monday'', ''mon'', ''mo''),
      (2, ''tuesday'', ''tue'', ''tu''), (3, ''wednesday'', ''wed'', ''we''),
      (4, ''thursday'', ''thu'', ''th''), (5, ''friday'', ''fri'', ''fr''),
      (6, ''saturday'', ''sat'', ''sa'')]"
  by code_simp

lemma lowered_names_lower:
  "list_all (\<lambda>(i, long, short, mn). list_all isLower long)
     [(0::int, ''sunday'', ''sun'', ''su''), (1, ''monday'', ''mon'', ''mo''),
      (2, ''tuesday'', ''tue'', ''tu''), (3, ''wednesday'', ''wed'', ''we''),
      (4, ''thursday'', ''thu'', ''th''), (5, ''friday'', ''fri'', ''fr''),
      (6, ''saturday'', ''sat'', ''sa'')]"
  by code_simp

lemma find_map_fst:
  assumes "\<And>x. fst (f x) = fst x"
  shows "map_option fst (find (\<lambda>x. Q (f x)) xs) = map_option fst (find Q (map f xs))"
  using assms by (induction xs) auto

lemma weekdaysParse_lowered:
  "weekdaysParse w =
     map_option fst
       (find (\<lambda>(i, long, short, mn). prefix long (map toLower w) \<or> prefix short (map toLower w)
                                      \<or> prefix mn (map toLower w))
          (map (\<lambda>(i, long, short, mn). (i, map toLower long, map toLower short, map toLower mn))
             weekdayNames))"
proof -
  let ?f = "\<lambda>(i::int, long, short, mn). (i, map toLower long, map toLower short, map toLower mn)"
  let ?Q = "\<lambda>(i::int, long, short, mn). prefix long (map toLower w) \<or> prefix short (map toLower w)
                                      \<or> prefix mn (map toLower w)"
  have "(\<lambda>(i::int, long, short, mn). startsWithI long w \<or> startsWithI short w \<or> startsWithI mn w)
        = (\<lambda>x. ?Q (?f x))"
    by (auto simp: startsWithI_def fun_eq_iff)
  moreover have "map_option fst (find (\<lambda>x. ?Q (?f x)) weekdayNames)
                 = map_option fst (find ?Q (map ?f weekdayNames))"
    by (rule find_map_fst) auto
  ultimately show ?thesis by (simp only: weekdaysParse_def)
qed

lemma weekday_table_lookup:
  "(i, W, S, M) \<in> set [(0::int, ''sunday'', ''sun'', ''su''), (1, ''monday'', ''mon'', ''mo''),
      (2, ''tuesday'', ''tue'', ''tu''), (3, ''wednesday'', ''wed'', ''we''),
      (4, ''thursday'', ''thu'', ''th''), (5, ''friday'', ''fri'', ''fr''),
      (6, ''saturday'', ''sat'', ''sa'')] \<Longrightarrow>
   map_option fst (find (\<lambda>(i, long, short, mn). prefix long W \<or> prefix short W \<or> prefix mn W)
     [(0::int, ''sunday'', ''sun'', ''su''), (1, ''monday'', ''mon'', ''mo''),
      (2, ''tuesday'', ''tue'', ''tu''), (3, ''wednesday'', ''wed'', ''we''),
      (4, ''thursday'', ''thu'', ''th''), (5, ''friday'', ''fri'', ''fr''),
      (6, ''saturday'', ''sat'', ''sa'')]) = Some i \<and> W \<noteq> []"
  apply (simp only: set_simps insert_iff empty_iff prod.inject)
  apply (elim disjE conjE)
        apply simp_all
  done

lemma weekday_name_parse:
  assumes "(i, long, short, mn) \<in> set weekdayNames" and "map toLower name = map toLower long"
  shows "weekdaysParse name = Some i" and "name \<noteq> []" and "\<forall>c \<in> set name. isLower c \<or> isUpper c"
proof -
  let ?tab = "[(0::int, ''sunday'', ''sun'', ''su''), (1, ''monday'', ''mon'', ''mo''),
      (2, ''tuesday'', ''tue'', ''tu''), (3, ''wednesday'', ''wed'', ''we''),
      (4, ''thursday'', ''thu'', ''th''), (5, ''friday'', ''fri'', ''fr''),
      (6, ''saturday'', ''sat'', ''sa'')]"
  define W where "W = map toLower name"
  define S where "S = map toLower short"
  define M where "M = map toLower mn"
  from assms(1) have "(i, map toLower long, map toLower short, map toLower mn) \<in>
      set (map (\<lambda>(i, long, short, mn). (i, map toLower long, map toLower short, map toLower mn)) weekdayNames)"
    by force
  then have mem: "(i, W, S, M) \<in> set ?tab"
    by (simp only: lowered_names assms(2) W_def S_def M_def)
  have "weekdaysParse name =
        map_option fst (find (\<lambda>(i, long, short, mn). prefix long W \<or> prefix short W \<or> prefix mn W) ?tab)"
    by (simp only: weekdaysParse_lowered lowered_names W_def)
  then show "weekdaysParse name = Some i" by (simp only: weekday_table_lookup [OF mem, THEN conjunct1])
  have "W \<noteq> []" by (rule weekday_table_lookup [OF mem, THEN conjunct2])
  then show "name \<noteq> []" by (auto simp: W_def)
  from mem lowered_names_lower have "list_all isLower W"
    by (auto simp: list_all_iff)
  then show "\<forall>c \<in> set name. isLower c \<or> isUpper c"
    by (auto simp: W_def list_all_iff lower_letter)
qed

lemma getDayIndex_name:
  assumes "(i, long, short, mn) \<in> set weekdayNames" and "map toLower name = map toLower long"
  shows "getDayIndex name = Num i"
proof -
  note p = weekday_name_parse [OF assms]
  have "matchWord (name @ []) = Some name"
    by (rule matchWord_letters) (use p in simp_all)
  then show ?thesis by (simp add: getDayIndex_def p(1))
qed

lemma includes_after_letters:
  "\<forall>c \<in> set name. c \<noteq> CHR ''-'' \<Longrightarrow> includes_str (name @ sfx) ''-A'' = includes_str sfx ''-A''"
  by (induction name) auto

lemma splitFirst_letters:
  assumes "\<forall>c \<in> set name. c \<noteq> CHR ''-''" and "sfx = [] \<or> hd sfx = CHR ''-''"
  shows "splitFirst (name @ sfx) CHR ''-'' = name"
  using assms by (cases sfx) (auto simp: splitFirst_def takeWhile_append2 intro: takeWhile_eq_all_conv [THEN iffD2])

lemma weekdaysParse_None_iff: "(weekdaysParse w = None) = (\<not> startsWithWeekday w)"
proof -
  define W where "W = map toLower w"
  have p: "prefix ''sunday'' W \<Longrightarrow> prefix ''su'' W" "prefix ''sun'' W \<Longrightarrow> prefix ''su'' W"
    "prefix ''monday'' W \<Longrightarrow> prefix ''mo'' W" "prefix ''mon'' W \<Longrightarrow> prefix ''mo'' W"
    "prefix ''tuesday'' W \<Longrightarrow> prefix ''tu'' W" "prefix ''tue'' W \<Longrightarrow> prefix ''tu'' W"
    "prefix ''wednesday'' W \<Longrightarrow> prefix ''we'' W" "prefix ''wed'' W \<Longrightarrow> prefix ''we'' W"
    "prefix ''thursday'' W \<Longrightarrow> prefix ''th'' W" "prefix ''thu'' W \<Longrightarrow> prefix ''th'' W"
    "prefix ''friday'' W \<Longrightarrow> prefix ''fr'' W" "prefix ''fri'' W \<Longrightarrow> prefix ''fr'' W"
    "prefix ''saturday'' W \<Longrightarrow> prefix ''sa'' W" "prefix ''sat'' W \<Longrightarrow> prefix ''sa'' W"
    using append_prefixD [of "''su''" "''nday''" W] append_prefixD [of "''su''" "''n''" W]
      append_prefixD [of "''mo''" "''nday''" W] append_prefixD [of "''mo''" "''n''" W]
      append_prefixD [of "''tu''" "''esday''" W] append_prefixD [of "''tu''" "''e''" W]
      append_prefixD [of "''we''" "''dnesday''" W] append_prefixD [of "''we''" "''d''" W]
      append_prefixD [of "''th''" "''ursday''" W] append_prefixD [of "''th''" "''u''" W]
      append_prefixD [of "''fr''" "''iday''" W] append_prefixD [of "''fr''" "''i''" W]
      append_prefixD [of "''sa''" "''turday''" W] append_prefixD [of "''sa''" "''t''" W]
    by simp_all
  have "(weekdaysParse w = None) =
        (\<not> (\<exists>x \<in> set [(0::int, ''sunday'', ''sun'', ''su''), (1, ''monday'', ''mon'', ''mo''),
      (2, ''tuesday'', ''tue'', ''tu''), (3, ''wednesday'', ''wed'', ''we''),
      (4, ''thursday'', ''thu'', ''th''), (5, ''friday'', ''fri'', ''fr''),
      (6, ''saturday'', ''sat'', ''sa'')]. (\<lambda>(i, long, short, mn). prefix long W \<or> prefix short W \<or> prefix mn W) x))"
    by (simp only: weekdaysParse_lowered lowered_names W_def option.map_disc_iff find_None_iff Bex_def)
  also have "\<dots> = (\<not> (\<exists>ab \<in> set [''su'', ''mo'', ''tu'', ''we'', ''th'', ''fr'', ''sa'']. prefix ab W))"
    using p by (simp only: set_simps ball_simps bex_simps case_prod_conv) blast
  finally show ?thesis by (simp only: startsWithWeekday_def W_def)
qed

lemma getDayIndex_NaN_iff: "(getDayIndex s = NaN) = noWeekdayIn s"
  by (auto simp: getDayIndex_def noWeekdayIn_def weekdaysParse_None_iff [symmetric] split: option.splits)

lemma waste_never_NaN:
  assumes "wasteDay p = NaN"
  shows "\<not> isWasteDay p d"
    and "getCategoriesForDay p d = Some cs \<Longrightarrow> ''waste'' \<notin> set cs"
  using assms by (auto simp: isWasteDay_def getCategoriesForDay_def split: option.splits if_splits)

lemma recycling_never_NaN:
  assumes "recyclingDay p = NaN"
  shows "\<not> isRecyclingDay p d"
    and "getCategoriesForDay p d = Some cs \<Longrightarrow> ''recycling'' \<notin> set cs"
  using assms by (auto simp: isRecyclingDay_def Let_def getCategoriesForDay_def split: option.splits if_splits)

lemma find_member: "find P xs = Some x \<Longrightarrow> x \<in> set xs"
  by (induction xs) (auto split: if_splits)

lemma weekdaysParse_range: "weekdaysParse w = Some i \<Longrightarrow> 0 \<le> i \<and> i \<le> 6"
proof -
  assume "weekdaysParse w = Some i"
  then obtain x where "find (\<lambda>(i, long, short, mn). startsWithI long w \<or> startsWithI short w
                                \<or> startsWithI mn w) weekdayNames = Some x" and "fst x = i"
    by (auto simp: weekdaysParse_def)
  then have "x \<in> set weekdayNames" and "fst x = i" by (auto dest: find_member)
  then show ?thesis by (auto simp: weekdayNames_def)
qed

lemma getDayIndex_range:
  "(noWeekdayIn s \<longrightarrow> getDayIndex s = NaN) \<and>
   (\<not> noWeekdayIn s \<longrightarrow> (\<exists>i. getDayIndex s = Num i \<and> 0 \<le> i \<and> i \<le> 6))"
  using weekdaysParse_range
  by (auto simp: getDayIndex_NaN_iff [symmetric] getDayIndex_def split: option.splits)

text \<open>
  The heavy-pickup records on which \<open>isHeavyDay\<close> returns: the invalid ones, those whose
  string does not start with a digit from 1 to 9, and those in which moment finds a
  weekday in the string from its first space on (in its last character, when it has
  no space).
\<close>

lemma parsed_rules_return_iff:
  "heavyReturns (parseData w j r) =
     (\<not> isValidData j \<or>
      \<not> js_lt (Num 0) (parseInt (substr (fieldOf j) 0 1)) \<or>
      \<not> noWeekdayIn (substrFrom (fieldOf j) (indexOf (fieldOf j) CHR '' '')))"
proof (cases "isValidData j")
  case False
  then show ?thesis by (simp add: heavyReturns_def parseData_junkWeekOfMonth)
next
  case True
  let ?s = "substrFrom (fieldOf j) (indexOf (fieldOf j) CHR '' '')"
  have "(case getDayIndex ?s of NaN \<Rightarrow> False | Num w \<Rightarrow> 0 \<le> w \<and> w \<le> 6) = (\<not> noWeekdayIn ?s)"
    using getDayIndex_range [of ?s] by (auto simp: getDayIndex_NaN_iff [symmetric] split: jsnum.splits)
  with True show ?thesis
    by (simp add: heavyReturns_def parseData_junkWeekOfMonth parseData_junkDay)
qed

section \<open>C1: a heavy-pickup pattern without a weekday\<close>

text \<open>
  C1 says that parsing and generating the window returns for every record of the
  described shape. It does not: for the heavy-pickup string \<open>3 Foo\<close> (a digit, then a word
  that is no weekday) \<open>parseData\<close> stores 3 and \<open>NaN\<close>, the loop of \<open>isHeavyDay\<close> counts
  occurrences of a weekday that no date has, and \<open>getUpcomingEvents\<close> with the default
  60 days never returns, whatever the other two records, the holiday table and the
  start date are.
\<close>

theorem heavy_without_weekday_hangs:
  "getUpcomingEvents
     (parseData wasteData (Some \<lparr>features = Some [\<lparr>attributes = Some ''3 Foo''\<rparr>]\<rparr>) recyclingData)
     holidays today 60 = None"
proof (rule getUpcomingEvents_diverges)
  fix d
  show "isHeavyDay
     (parseData wasteData (Some \<lparr>features = Some [\<lparr>attributes = Some ''3 Foo''\<rparr>]\<rparr>) recyclingData) d = None"
    by (rule not_heavyReturns_diverges) (simp add: heavyReturns_def parse_heavy_without_weekday)
qed simp

section \<open>C2: window lengths that are not positive\<close>

text \<open>
  C2 as stated fails: \<open>_.range(0, n)\<close> counts down for a negative \<open>n\<close>, so the generator
  classifies today and the days before it. With waste on Wednesdays, Thursday
  2024-01-04 as today and -2 days, the result holds the event of Wednesday 2024-01-03.
\<close>

theorem upcoming_negative_counterexample:
  "getUpcomingEvents
     \<lparr>wasteDay = Num 3, junkWeekOfMonth = Num (- 1), junkDay = Num (- 1), recyclingDay = Num (- 1),
      recyclingOnEvenWeeks = False\<rparr> []
     \<lparr>year = 2024, month = 0, date = 4\<rparr> (- 2) =
     Some [\<lparr>day = \<lparr>year = 2024, month = 0, date = 3\<rparr>, categories = [''waste''], possibleHoliday = False\<rparr>] \<and>
   getUpcomingEvents
     \<lparr>wasteDay = Num 3, junkWeekOfMonth = Num (- 1), junkDay = Num (- 1), recyclingDay = Num (- 1),
      recyclingOnEvenWeeks = False\<rparr> []
     \<lparr>year = 2024, month = 0, date = 4\<rparr> (- 2) \<noteq> Some []"
proof -
  have "getUpcomingEvents
     \<lparr>wasteDay = Num 3, junkWeekOfMonth = Num (- 1), junkDay = Num (- 1), recyclingDay = Num (- 1),
      recyclingOnEvenWeeks = False\<rparr> []
     \<lparr>year = 2024, month = 0, date = 4\<rparr> (- 2) =
     Some [\<lparr>day = \<lparr>year = 2024, month = 0, date = 3\<rparr>, categories = [''waste''], possibleHoliday = False\<rparr>]"
    by code_simp
  then show ?thesis by simp
qed

text \<open>
  C2, amended. For 0 days the result is the empty sequence, for every rule set. For
  a negative number \<open>n\<close> of days and rules on which \<open>isHeavyDay\<close> returns, the generator
  returns; what it returns are the events of the \<open>-n\<close> dates today, today - 1, ...,
  in that order (dates strictly decreasing), one for each date with a category.
\<close>

theorem upcoming_nonpositive:
  assumes "valid today" and "n \<le> 0"
  shows "(heavyReturns p \<longrightarrow> getUpcomingEvents p hol today n \<noteq> None) \<and>
         getUpcomingEvents p hol today 0 = Some [] \<and>
         (\<forall>evs. getUpcomingEvents p hol today n = Some evs \<longrightarrow>
            int (length evs) \<le> - n \<and>
            sorted_wrt (\<lambda>a b. isBefore b a) (map day evs) \<and>
            (\<forall>e \<in> set evs. (\<exists>i. 0 \<le> i \<and> i < - n \<and> day e = addDays today (- i)) \<and> categories e \<noteq> []) \<and>
            map day evs = filter (\<lambda>d. getCategoriesForDay p d \<noteq> Some [])
                            (map (\<lambda>i. addDays today (- int i)) [0..<nat (- n)]))"
proof (intro conjI impI allI)
  assume "heavyReturns p"
  then show "getUpcomingEvents p hol today n \<noteq> None"
    using assms(1) by (rule getUpcomingEvents_returns)
next
  show "getUpcomingEvents p hol today 0 = Some []"
    by (simp add: getUpcomingEvents_def range_lodash_def)
next
  fix evs
  assume evs: "getUpcomingEvents p hol today n = Some evs"
  have days: "map day evs = filter (\<lambda>d. getCategoriesForDay p d \<noteq> Some [])
                (map (\<lambda>i. addDays today i) (map (\<lambda>k. - int k) [0..<nat (- n)]))"
    using upcoming_days [OF evs] assms(2) by (simp only: range_lodash_neg)
  then show "map day evs = filter (\<lambda>d. getCategoriesForDay p d \<noteq> Some [])
                            (map (\<lambda>i. addDays today (- int i)) [0..<nat (- n)])"
    by (simp add: comp_def)
  have "length (map day evs) \<le> length (map (\<lambda>i. addDays today i) (map (\<lambda>k. - int k) [0..<nat (- n)]))"
    unfolding days by (rule length_filter_le)
  then show "int (length evs) \<le> - n" using assms(2) by simp
  show "sorted_wrt (\<lambda>a b. isBefore b a) (map day evs)"
    unfolding days by (rule sorted_wrt_filter) (rule sorted_window_down [OF assms(1)])
  show "\<forall>e \<in> set evs. (\<exists>i. 0 \<le> i \<and> i < - n \<and> day e = addDays today (- i)) \<and> categories e \<noteq> []"
  proof
    fix e assume "e \<in> set evs"
    from upcoming_event_origin [OF evs this] obtain i where
      i: "i \<in> set (range_lodash 0 n)" "day e = addDays today i" "categories e \<noteq> []" by blast
    from i(1) assms(2) have "0 \<le> - i \<and> - i < - n" by (auto simp: range_lodash_neg)
    moreover have "day e = addDays today (- (- i))" using i(2) by simp
    ultimately show "(\<exists>i. 0 \<le> i \<and> i < - n \<and> day e = addDays today (- i)) \<and> categories e \<noteq> []"
      using i(3) by blast
  qed
qed

theorem upcoming_nonpositive_witness:
  "valid \<lparr>year = 2024, month = 0, date = 5\<rparr> \<and> (- 3 :: int) \<le> 0 \<and>
   heavyReturns
     \<lparr>wasteDay = Num 3, junkWeekOfMonth = Num (- 1), junkDay = Num (- 1), recyclingDay = Num (- 1),
      recyclingOnEvenWeeks = False\<rparr> \<and>
   getUpcomingEvents
     \<lparr>wasteDay = Num 3, junkWeekOfMonth = Num (- 1), junkDay = Num (- 1), recyclingDay = Num (- 1),
      recyclingOnEvenWeeks = False\<rparr> []
     \<lparr>year = 2024, month = 0, date = 5\<rparr> (- 3) =
     Some [\<lparr>day = \<lparr>year = 2024, month = 0, date = 3\<rparr>, categories = [''waste''], possibleHoliday = False\<rparr>] \<and>
   getUpcomingEvents
     \<lparr>wasteDay = Num 3, junkWeekOfMonth = Num (- 1), junkDay = Num (- 1), recyclingDay = Num (- 1),
      recyclingOnEvenWeeks = False\<rparr> []
     \<lparr>year = 2024, month = 0, date = 5\<rparr> 0 = Some [] \<and>
   int (length [\<lparr>day = \<lparr>year = 2024, month = 0, date = 3\<rparr>, categories = [''waste''], possibleHoliday = False\<rparr>]) \<le> - (- 3) \<and>
   sorted_wrt (\<lambda>a b. isBefore b a)
     (map day [\<lparr>day = \<lparr>year = 2024, month = 0, date = 3\<rparr>, categories = [''waste''], possibleHoliday = False\<rparr>])"
proof -
  let ?p = "\<lparr>wasteDay = Num 3, junkWeekOfMonth = Num (- 1), junkDay = Num (- 1), recyclingDay = Num (- 1),
      recyclingOnEvenWeeks = False\<rparr>"
  let ?t = "\<lparr>year = 2024, month = 0, date = 5\<rparr>"
  let ?evs = "[\<lparr>day = \<lparr>year = 2024, month = 0, date = 3\<rparr>, categories = [''waste''], possibleHoliday = False\<rparr>]"
  have v: "valid ?t" by (simp add: valid_def daysInMonth_def)
  have n: "(- 3 :: int) \<le> 0" by simp
  have h: "heavyReturns ?p" by (simp add: heavyReturns_def)
  have e: "getUpcomingEvents ?p [] ?t (- 3) = Some ?evs" by code_simp
  note t = upcoming_nonpositive [OF v n, of ?p "[]"]
  note z = t [THEN conjunct2, THEN conjunct1]
  note k = t [THEN conjunct2, THEN conjunct2, THEN spec, THEN mp, OF e]
  from v n h e z k [THEN conjunct1] k [THEN conjunct2, THEN conjunct1]
  show ?thesis by (intro conjI) assumption+
qed

section \<open>C3: the n-th weekday of the month\<close>

text \<open>
  What holds of C3. For rules with a week of the month \<open>n \<ge> 1\<close> and a heavy day
  \<open>w\<close> that is a weekday index, \<open>isHeavyDay\<close> returns on every date, and it is true
  exactly on the \<open>n\<close>-th occurrence of \<open>w\<close> in the month of the date
  (\<open>isHeavyDay_nth\<close>). So at most one date of a month is heavy, the date found by
  counting from the 1st is heavy when \<open>n \<le> 4\<close>, and no date is heavy in a month with
  fewer than \<open>n\<close> occurrences. With an unset week of the month the result is false
  (\<open>isHeavyDay_no_rule\<close>).
\<close>

lemma heavy_unique:
  assumes n: "junkWeekOfMonth p = Num n" "1 \<le> n" and w: "junkDay p = Num w" "0 \<le> w" "w \<le> 6"
    and v: "valid d" "valid e" and same: "year d = year e" "month d = month e"
    and h: "isHeavyDay p d = Some True" "isHeavyDay p e = Some True"
  shows "d = e"
proof -
  have s: "startOfMonth d = startOfMonth e" using same by (cases d, cases e) (simp add: startOfMonth_def)
  then have o: "heavyOffset n w d = heavyOffset n w e" by (simp add: heavyOffset_def)
  from h(1) have "Some (addDays (startOfMonth d) (heavyOffset n w d) = d) = Some True"
    by (simp only: isHeavyDay_closed [OF n w v(1)])
  then have a: "addDays (startOfMonth d) (heavyOffset n w d) = d"
    by (simp only: option.inject eq_True)
  from h(2) have "Some (addDays (startOfMonth e) (heavyOffset n w e) = e) = Some True"
    by (simp only: isHeavyDay_closed [OF n w v(2)])
  then have b: "addDays (startOfMonth e) (heavyOffset n w e) = e"
    by (simp only: option.inject eq_True)
  have "d = addDays (startOfMonth d) (heavyOffset n w d)" by (rule a [symmetric])
  also have "\<dots> = addDays (startOfMonth e) (heavyOffset n w e)" by (simp only: s o)
  also have "\<dots> = e" by (rule b)
  finally show ?thesis .
qed

lemma heavy_exists:
  assumes n: "junkWeekOfMonth p = Num n" "1 \<le> n" "n \<le> 4" and w: "junkDay p = Num w" "0 \<le> w" "w \<le> 6"
    and v: "valid d"
  shows "valid (d\<lparr>date := heavyOffset n w d + 1\<rparr>) \<and>
         isHeavyDay p (d\<lparr>date := heavyOffset n w d + 1\<rparr>) = Some True"
proof -
  let ?e = "d\<lparr>date := heavyOffset n w d + 1\<rparr>"
  have m: "0 \<le> (w - momentDay (startOfMonth d)) mod 7" "(w - momentDay (startOfMonth d)) mod 7 < 7"
    by simp_all
  with n have o: "0 \<le> heavyOffset n w d" "heavyOffset n w d \<le> 27" by (simp_all add: heavyOffset_def)
  have ve: "valid ?e"
    using v o daysInMonth_bounds [of "year d" "month d"] by (simp add: valid_def)
  have "startOfMonth ?e = startOfMonth d" by (simp add: startOfMonth_def)
  then have "heavyOffset n w ?e = heavyOffset n w d" by (simp add: heavyOffset_def)
  then have "nthWeekdayOfMonth n w ?e" by (simp add: nthWeekdayOfMonth_offset [OF ve w(2,3)])
  then show ?thesis using ve by (simp add: isHeavyDay_nth [OF n(1,2) w ve])
qed

lemma heavy_none_when_few:
  assumes n: "junkWeekOfMonth p = Num n" "1 \<le> n" and w: "junkDay p = Num w" "0 \<le> w" "w \<le> 6"
    and v: "valid d"
    and few: "int (length (filter (\<lambda>k. momentDay (d\<lparr>date := k\<rparr>) = w)
                             [1..daysInMonth (year d) (month d)])) < n"
  shows "isHeavyDay p d = Some False"
proof -
  let ?P = "\<lambda>k. momentDay (d\<lparr>date := k\<rparr>) = w"
  from v have b: "1 \<le> date d + 1" "date d \<le> daysInMonth (year d) (month d)" by (simp_all add: valid_def)
  have "[1..daysInMonth (year d) (month d)] = [1..date d] @ [date d + 1..daysInMonth (year d) (month d)]"
    using upto_split2 [of 1 "date d" "daysInMonth (year d) (month d)"] b v by (simp add: valid_def)
  then have "length (filter ?P [1..date d]) \<le> length (filter ?P [1..daysInMonth (year d) (month d)])"
    by simp
  with few have "\<not> nthWeekdayOfMonth n w d" by (simp add: nthWeekdayOfMonth_def)
  then show ?thesis by (simp add: isHeavyDay_nth [OF n w v])
qed

text \<open>
  C3 also says that the result is false when either field is unset. The code breaks
  this when only the heavy day is unset: on the rules that \<open>parseData\<close> stores for
  \<open>3 Foo\<close>, week of the month 3 and heavy day \<open>NaN\<close>, \<open>isHeavyDay\<close> does not return, on
  any date.
\<close>

theorem isHeavyDay_without_weekday_hangs:
  "junkWeekOfMonth (parseData wasteData (Some \<lparr>features = Some [\<lparr>attributes = Some ''3 Foo''\<rparr>]\<rparr>) recyclingData) = Num 3 \<and>
   junkDay (parseData wasteData (Some \<lparr>features = Some [\<lparr>attributes = Some ''3 Foo''\<rparr>]\<rparr>) recyclingData) = NaN \<and>
   isHeavyDay (parseData wasteData (Some \<lparr>features = Some [\<lparr>attributes = Some ''3 Foo''\<rparr>]\<rparr>) recyclingData) d = None"
proof -
  have "isHeavyDay (parseData wasteData (Some \<lparr>features = Some [\<lparr>attributes = Some ''3 Foo''\<rparr>]\<rparr>) recyclingData) d = None"
    by (rule not_heavyReturns_diverges) (simp add: heavyReturns_def parse_heavy_without_weekday)
  then show ?thesis by (simp add: parse_heavy_without_weekday)
qed

section \<open>C4: the recycling string\<close>

text \<open>
  C4 as stated fails on the suffix \<open>-B\<close>: \<open>parseData\<close> tests for \<open>-A\<close> only, so
  \<open>Monday-B\<close> gives \<open>recyclingOnEvenWeeks = true\<close>, not false.
\<close>

theorem recycling_suffix_counterexample:
  "recyclingOnEvenWeeks (parseData None None (Some \<lparr>features = Some [\<lparr>attributes = Some ''Monday-B''\<rparr>]\<rparr>)) = True"
  by code_simp

text \<open>
  C4, amended. For a valid recycling record whose string is an English weekday name,
  in any letter case, followed by nothing, by \<open>-A\<close> or by \<open>-B\<close>, \<open>recyclingDay\<close> is the
  index of the weekday, and \<open>recyclingOnEvenWeeks\<close> is false exactly for the suffix
  \<open>-A\<close> (true for \<open>-B\<close> and for no suffix).
\<close>

theorem recycling_suffix:
  assumes "isValidData recyclingData" and "fieldOf recyclingData = name @ sfx"
    and "(i, long, short, mn) \<in> set weekdayNames" and "map toLower name = map toLower long"
    and "sfx = [] \<or> sfx = ''-A'' \<or> sfx = ''-B''"
  shows "recyclingDay (parseData wasteData junkData recyclingData) = Num i \<and>
         recyclingOnEvenWeeks (parseData wasteData junkData recyclingData) = (sfx \<noteq> ''-A'')"
proof -
  have letters: "\<forall>c \<in> set name. isLower c \<or> isUpper c"
    by (rule weekday_name_parse(3) [OF assms(3,4)])
  then have nodash: "\<forall>c \<in> set name. c \<noteq> CHR ''-''" using letter_props(3) by blast
  have "splitFirst (name @ sfx) CHR ''-'' = name"
    by (rule splitFirst_letters [OF nodash]) (use assms(5) in auto)
  then have "recyclingDay (parseData wasteData junkData recyclingData) = Num i"
    by (simp add: parseData_recyclingDay assms(1,2) getDayIndex_name [OF assms(3,4)])
  moreover have "includes_str (name @ sfx) ''-A'' = (sfx = ''-A'')"
    using assms(5) by (auto simp: includes_after_letters [OF nodash])
  then have "recyclingOnEvenWeeks (parseData wasteData junkData recyclingData) = (sfx \<noteq> ''-A'')"
    by (simp add: parseData_recyclingOnEvenWeeks assms(1,2))
  ultimately show ?thesis by simp
qed

theorem recycling_suffix_witness:
  "isValidData (Some \<lparr>features = Some [\<lparr>attributes = Some ''MONDAY-B''\<rparr>]\<rparr>) \<and>
   fieldOf (Some \<lparr>features = Some [\<lparr>attributes = Some ''MONDAY-B''\<rparr>]\<rparr>) = ''MONDAY'' @ ''-B'' \<and>
   (1, ''Monday'', ''Mon'', ''Mo'') \<in> set weekdayNames \<and>
   map toLower ''MONDAY'' = map toLower ''Monday'' \<and>
   recyclingDay (parseData None None (Some \<lparr>features = Some [\<lparr>attributes = Some ''MONDAY-B''\<rparr>]\<rparr>)) = Num 1 \<and>
   recyclingOnEvenWeeks (parseData None None (Some \<lparr>features = Some [\<lparr>attributes = Some ''MONDAY-B''\<rparr>]\<rparr>)) = True"
proof -
  let ?r = "(Some \<lparr>features = Some [\<lparr>attributes = Some ''MONDAY-B''\<rparr>]\<rparr>)"
  have a: "isValidData ?r" by code_simp
  have b: "fieldOf ?r = ''MONDAY'' @ ''-B''" by code_simp
  have c: "(1, ''Monday'', ''Mon'', ''Mo'') \<in> set weekdayNames" by (simp add: weekdayNames_def)
  have d: "map toLower ''MONDAY'' = map toLower ''Monday''" by code_simp
  have e: "''-B'' = [] \<or> ''-B'' = ''-A'' \<or> ''-B'' = ''-B''" by simp
  from recycling_suffix [OF a b c d e, of None None] a b c d show ?thesis by simp
qed

section \<open>C5: recycling across the end of a year\<close>

text \<open>
  C5 says that recycling recurs every 14 days in every window. The code decides by
  the parity of the week of the year, and the year 2016 ends with week 53 while
  2017 starts with week 1, both odd: with the rules parsed from \<open>MONDAY-A\<close> the window
  of 36 days from 2016-12-12 has recycling on 12-12, on 12-26, again on 01-02 (7
  days later) and on 01-16.
\<close>

theorem recycling_year_end_eval:
  "parseData None None (Some \<lparr>features = Some [\<lparr>attributes = Some ''MONDAY-A''\<rparr>]\<rparr>) =
     \<lparr>wasteDay = Num (- 1), junkWeekOfMonth = Num (- 1), junkDay = Num (- 1), recyclingDay = Num 1,
      recyclingOnEvenWeeks = False\<rparr> \<and>
   weeks \<lparr>year = 2016, month = 11, date = 26\<rparr> = 53 \<and> weeks \<lparr>year = 2017, month = 0, date = 2\<rparr> = 1 \<and>
   getUpcomingEvents
     \<lparr>wasteDay = Num (- 1), junkWeekOfMonth = Num (- 1), junkDay = Num (- 1), recyclingDay = Num 1,
      recyclingOnEvenWeeks = False\<rparr> []
     \<lparr>year = 2016, month = 11, date = 12\<rparr> 36 =
     Some [\<lparr>day = \<lparr>year = 2016, month = 11, date = 12\<rparr>, categories = [''recycling''], possibleHoliday = False\<rparr>,
           \<lparr>day = \<lparr>year = 2016, month = 11, date = 26\<rparr>, categories = [''recycling''], possibleHoliday = False\<rparr>,
           \<lparr>day = \<lparr>year = 2017, month = 0, date = 2\<rparr>, categories = [''recycling''], possibleHoliday = False\<rparr>,
           \<lparr>day = \<lparr>year = 2017, month = 0, date = 16\<rparr>, categories = [''recycling''], possibleHoliday = False\<rparr>]"
  by code_simp

section \<open>C6: the window\<close>

text \<open>
  C6. For a valid start date and \<open>n \<ge> 0\<close> days: on rules on which \<open>isHeavyDay\<close>
  returns, \<open>getUpcomingEvents\<close> returns; and whenever it returns, there are at most \<open>n\<close>
  events, their dates strictly increase, each date is one of the \<open>n\<close> dates from the
  start date on, each event has a category, and the dates are exactly the dates of
  the window that have a category.
\<close>

theorem events_window:
  assumes "valid today" and "0 \<le> n"
  shows "(heavyReturns p \<longrightarrow> getUpcomingEvents p hol today n \<noteq> None) \<and>
         (\<forall>evs. getUpcomingEvents p hol today n = Some evs \<longrightarrow>
            int (length evs) \<le> n \<and>
            sorted_wrt isBefore (map day evs) \<and>
            (\<forall>e \<in> set evs. (\<exists>i. 0 \<le> i \<and> i < n \<and> day e = addDays today i) \<and> categories e \<noteq> []) \<and>
            map day evs = filter (\<lambda>d. getCategoriesForDay p d \<noteq> Some [])
                            (map (\<lambda>i. addDays today (int i)) [0..<nat n]))"
proof (intro conjI impI allI)
  assume "heavyReturns p"
  then show "getUpcomingEvents p hol today n \<noteq> None"
    using assms(1) by (rule getUpcomingEvents_returns)
next
  fix evs
  assume evs: "getUpcomingEvents p hol today n = Some evs"
  have days: "map day evs = filter (\<lambda>d. getCategoriesForDay p d \<noteq> Some [])
                (map (\<lambda>i. addDays today i) (map int [0..<nat n]))"
    using upcoming_days [OF evs] assms(2) by (simp only: range_lodash_nonneg)
  then show "map day evs = filter (\<lambda>d. getCategoriesForDay p d \<noteq> Some [])
                            (map (\<lambda>i. addDays today (int i)) [0..<nat n])"
    by (simp add: comp_def)
  have "length (map day evs) \<le> length (map (\<lambda>i. addDays today i) (map int [0..<nat n]))"
    unfolding days by (rule length_filter_le)
  then show "int (length evs) \<le> n" using assms(2) by simp
  show "sorted_wrt isBefore (map day evs)"
    unfolding days by (rule sorted_wrt_filter) (rule sorted_window_up [OF assms(1)])
  show "\<forall>e \<in> set evs. (\<exists>i. 0 \<le> i \<and> i < n \<and> day e = addDays today i) \<and> categories e \<noteq> []"
  proof
    fix e assume "e \<in> set evs"
    from upcoming_event_origin [OF evs this] obtain i where
      "i \<in> set (range_lodash 0 n)" "day e = addDays today i" "categories e \<noteq> []" by blast
    moreover from this assms(2) have "0 \<le> i \<and> i < n" by (auto simp: range_lodash_nonneg)
    ultimately show "(\<exists>i. 0 \<le> i \<and> i < n \<and> day e = addDays today i) \<and> categories e \<noteq> []"
      by blast
  qed
qed

theorem events_window_witness:
  "valid \<lparr>year = 2024, month = 0, date = 1\<rparr> \<and> (0 :: int) \<le> 14 \<and>
   heavyReturns
     \<lparr>wasteDay = Num 3, junkWeekOfMonth = Num 2, junkDay = Num 1, recyclingDay = Num 5,
      recyclingOnEvenWeeks = True\<rparr> \<and>
   getUpcomingEvents
     \<lparr>wasteDay = Num 3, junkWeekOfMonth = Num 2, junkDay = Num 1, recyclingDay = Num 5,
      recyclingOnEvenWeeks = True\<rparr> []
     \<lparr>year = 2024, month = 0, date = 1\<rparr> 14 =
     Some [\<lparr>day = \<lparr>year = 2024, month = 0, date = 3\<rparr>, categories = [''waste''], possibleHoliday = False\<rparr>,
           \<lparr>day = \<lparr>year = 2024, month = 0, date = 8\<rparr>, categories = [''tree''], possibleHoliday = False\<rparr>,
           \<lparr>day = \<lparr>year = 2024, month = 0, date = 10\<rparr>, categories = [''waste''], possibleHoliday = False\<rparr>,
           \<lparr>day = \<lparr>year = 2024, month = 0, date = 12\<rparr>, categories = [''recycling''], possibleHoliday = False\<rparr>] \<and>
   int (length [\<lparr>day = \<lparr>year = 2024, month = 0, date = 3\<rparr>, categories = [''waste''], possibleHoliday = False\<rparr>,
           \<lparr>day = \<lparr>year = 2024, month = 0, date = 8\<rparr>, categories = [''tree''], possibleHoliday = False\<rparr>,
           \<lparr>day = \<lparr>year = 2024, month = 0, date = 10\<rparr>, categories = [''waste''], possibleHoliday = False\<rparr>,
           \<lparr>day = \<lparr>year = 2024, month = 0, date = 12\<rparr>, categories = [''recycling''], possibleHoliday = False\<rparr>]) \<le> 14 \<and>
   sorted_wrt isBefore
     (map day [\<lparr>day = \<lparr>year = 2024, month = 0, date = 3\<rparr>, categories = [''waste''], possibleHoliday = False\<rparr>,
           \<lparr>day = \<lparr>year = 2024, month = 0, date = 8\<rparr>, categories = [''tree''], possibleHoliday = False\<rparr>,
           \<lparr>day = \<lparr>year = 2024, month = 0, date = 10\<rparr>, categories = [''waste''], possibleHoliday = False\<rparr>,
           \<lparr>day = \<lparr>year = 2024, month = 0, date = 12\<rparr>, categories = [''recycling''], possibleHoliday = False\<rparr>])"
proof -
  let ?p = "\<lparr>wasteDay = Num 3, junkWeekOfMonth = Num 2, junkDay = Num 1, recyclingDay = Num 5,
      recyclingOnEvenWeeks = True\<rparr>"
  let ?t = "\<lparr>year = 2024, month = 0, date = 1\<rparr>"
  let ?evs = "[\<lparr>day = \<lparr>year = 2024, month = 0, date = 3\<rparr>, categories = [''waste''], possibleHoliday = False\<rparr>,
           \<lparr>day = \<lparr>year = 2024, month = 0, date = 8\<rparr>, categories = [''tree''], possibleHoliday = False\<rparr>,
           \<lparr>day = \<lparr>year = 2024, month = 0, date = 10\<rparr>, categories = [''waste''], possibleHoliday = False\<rparr>,
           \<lparr>day = \<lparr>year = 2024, month = 0, date = 12\<rparr>, categories = [''recycling''], possibleHoliday = False\<rparr>]"
  have v: "valid ?t" by (simp add: valid_def daysInMonth_def)
  have n: "(0 :: int) \<le> 14" by simp
  have h: "heavyReturns ?p" by (simp add: heavyReturns_def)
  have e: "getUpcomingEvents ?p [] ?t 14 = Some ?evs" by code_simp
  note t = events_window [OF v n, of ?p "[]"]
  note k = t [THEN conjunct2, THEN spec, THEN mp, OF e]
  from v n h e k [THEN conjunct1] k [THEN conjunct2, THEN conjunct1]
  show ?thesis by (intro conjI) assumption+
qed

section \<open>C7: junk and tree\<close>

text \<open>
  C7. Junk and tree never apply together: not as results of \<open>isJunkDay\<close> and
  \<open>isTreeDay\<close> on one date, not in a list of \<open>getCategoriesForDay\<close>, not in an
  emitted event. (\<open>isJunkDay\<close> asks for an even 1-based month, \<open>isTreeDay\<close> for an odd
  one.)
\<close>

theorem junk_tree_exclusive:
  "\<not> (isJunkDay p d = Some True \<and> isTreeDay p d = Some True) \<and>
   (getCategoriesForDay p d = Some cs \<longrightarrow> \<not> (''junk'' \<in> set cs \<and> ''tree'' \<in> set cs)) \<and>
   (getUpcomingEvents p hol today n = Some evs \<longrightarrow>
      (\<forall>e \<in> set evs. \<not> (''junk'' \<in> set (categories e) \<and> ''tree'' \<in> set (categories e))))"
proof -
  have cats: "\<not> (''junk'' \<in> set cs' \<and> ''tree'' \<in> set cs')"
    if "getCategoriesForDay p d' = Some cs'" for d' cs'
    using that
    by (auto simp: getCategoriesForDay_def isJunkDay_def isTreeDay_def
             split: option.splits if_splits)
  have "\<not> (isJunkDay p d = Some True \<and> isTreeDay p d = Some True)"
    by (simp add: isJunkDay_def isTreeDay_def)
  moreover have "getCategoriesForDay p d = Some cs \<longrightarrow> \<not> (''junk'' \<in> set cs \<and> ''tree'' \<in> set cs)"
    using cats by blast
  moreover have "getUpcomingEvents p hol today n = Some evs \<longrightarrow>
      (\<forall>e \<in> set evs. \<not> (''junk'' \<in> set (categories e) \<and> ''tree'' \<in> set (categories e)))"
    using cats upcoming_event_origin by blast
  ultimately show ?thesis by blast
qed

theorem junk_tree_exclusive_witness:
  "getCategoriesForDay
     \<lparr>wasteDay = Num 3, junkWeekOfMonth = Num 3, junkDay = Num 2, recyclingDay = Num 5,
      recyclingOnEvenWeeks = True\<rparr>
     \<lparr>year = 2024, month = 1, date = 20\<rparr> = Some [''junk''] \<and>
   \<not> (''junk'' \<in> set [''junk''] \<and> ''tree'' \<in> set [''junk'']) \<and>
   getUpcomingEvents
     \<lparr>wasteDay = Num 3, junkWeekOfMonth = Num 3, junkDay = Num 2, recyclingDay = Num 5,
      recyclingOnEvenWeeks = True\<rparr> []
     \<lparr>year = 2024, month = 0, date = 16\<rparr> 2 =
     Some [\<lparr>day = \<lparr>year = 2024, month = 0, date = 16\<rparr>, categories = [''tree''],
            possibleHoliday = False\<rparr>,
           \<lparr>day = \<lparr>year = 2024, month = 0, date = 17\<rparr>, categories = [''waste''],
            possibleHoliday = False\<rparr>] \<and>
   \<not> (''junk'' \<in> set (categories \<lparr>day = \<lparr>year = 2024, month = 0, date = 16\<rparr>,
                                     categories = [''tree''], possibleHoliday = False\<rparr>) \<and>
      ''tree'' \<in> set (categories \<lparr>day = \<lparr>year = 2024, month = 0, date = 16\<rparr>,
                                     categories = [''tree''], possibleHoliday = False\<rparr>))"
proof -
  let ?p = "\<lparr>wasteDay = Num 3, junkWeekOfMonth = Num 3, junkDay = Num 2, recyclingDay = Num 5,
             recyclingOnEvenWeeks = True\<rparr>"
  let ?evs = "[\<lparr>day = \<lparr>year = 2024, month = 0, date = 16\<rparr>, categories = [''tree''],
                possibleHoliday = False\<rparr>,
               \<lparr>day = \<lparr>year = 2024, month = 0, date = 17\<rparr>, categories = [''waste''],
                possibleHoliday = False\<rparr>]"
  have a: "getCategoriesForDay ?p \<lparr>year = 2024, month = 1, date = 20\<rparr> = Some [''junk'']"
    by code_simp
  have b: "getUpcomingEvents ?p [] \<lparr>year = 2024, month = 0, date = 16\<rparr> 2 = Some ?evs"
    by code_simp
  from a b junk_tree_exclusive [of ?p "\<lparr>year = 2024, month = 1, date = 20\<rparr>" "[''junk'']"
      "[]" "\<lparr>year = 2024, month = 0, date = 16\<rparr>" 2 ?evs]
  show ?thesis by simp
qed

section \<open>C8: the holiday flag\<close>

text \<open>
  C8. \<open>isPossibleHoliday\<close> is true exactly for the dates of the holiday table, and the
  flag of every emitted event says whether its date is in the table, whatever its
  categories are.
\<close>

theorem possibleHoliday_iff:
  "isPossibleHoliday hol d = (d \<in> set hol) \<and>
   (getUpcomingEvents p hol today n = Some evs \<longrightarrow>
      (\<forall>e \<in> set evs. possibleHoliday e = (day e \<in> set hol)))"
proof -
  have flag: "isPossibleHoliday hol d' = (d' \<in> set hol)" for d'
    by (auto simp: isPossibleHoliday_def some_iff isSame_eq)
  then show ?thesis using upcoming_event_origin by fastforce
qed

theorem possibleHoliday_iff_witness:
  "getUpcomingEvents
     \<lparr>wasteDay = Num 3, junkWeekOfMonth = Num (-1), junkDay = Num (-1), recyclingDay = Num 4,
      recyclingOnEvenWeeks = False\<rparr>
     [\<lparr>year = 2024, month = 0, date = 1\<rparr>, \<lparr>year = 2024, month = 0, date = 3\<rparr>]
     \<lparr>year = 2024, month = 0, date = 1\<rparr> 4 =
     Some [\<lparr>day = \<lparr>year = 2024, month = 0, date = 3\<rparr>, categories = [''waste''],
            possibleHoliday = True\<rparr>,
           \<lparr>day = \<lparr>year = 2024, month = 0, date = 4\<rparr>, categories = [''recycling''],
            possibleHoliday = False\<rparr>] \<and>
   isPossibleHoliday [\<lparr>year = 2024, month = 0, date = 1\<rparr>, \<lparr>year = 2024, month = 0, date = 3\<rparr>]
     \<lparr>year = 2024, month = 0, date = 1\<rparr> \<and>
   possibleHoliday \<lparr>day = \<lparr>year = 2024, month = 0, date = 3\<rparr>, categories = [''waste''],
                    possibleHoliday = True\<rparr> =
     (day \<lparr>day = \<lparr>year = 2024, month = 0, date = 3\<rparr>, categories = [''waste''],
           possibleHoliday = True\<rparr>
        \<in> set [\<lparr>year = 2024, month = 0, date = 1\<rparr>, \<lparr>year = 2024, month = 0, date = 3\<rparr>]) \<and>
   possibleHoliday \<lparr>day = \<lparr>year = 2024, month = 0, date = 4\<rparr>, categories = [''recycling''],
                    possibleHoliday = False\<rparr> =
     (day \<lparr>day = \<lparr>year = 2024, month = 0, date = 4\<rparr>, categories = [''recycling''],
           possibleHoliday = False\<rparr>
        \<in> set [\<lparr>year = 2024, month = 0, date = 1\<rparr>, \<lparr>year = 2024, month = 0, date = 3\<rparr>])"
proof -
  let ?p = "\<lparr>wasteDay = Num 3, junkWeekOfMonth = Num (-1), junkDay = Num (-1), recyclingDay = Num 4,
             recyclingOnEvenWeeks = False\<rparr>"
  let ?hol = "[\<lparr>year = 2024, month = 0, date = 1\<rparr>, \<lparr>year = 2024, month = 0, date = 3\<rparr>]"
  let ?evs = "[\<lparr>day = \<lparr>year = 2024, month = 0, date = 3\<rparr>, categories = [''waste''],
                possibleHoliday = True\<rparr>,
               \<lparr>day = \<lparr>year = 2024, month = 0, date = 4\<rparr>, categories = [''recycling''],
                possibleHoliday = False\<rparr>]"
  have b: "getUpcomingEvents ?p ?hol \<lparr>year = 2024, month = 0, date = 1\<rparr> 4 = Some ?evs"
    by code_simp
  from b possibleHoliday_iff [of ?hol "\<lparr>year = 2024, month = 0, date = 1\<rparr>" ?p
      "\<lparr>year = 2024, month = 0, date = 1\<rparr>" 4 ?evs]
  show ?thesis by simp
qed

section \<open>C9: the order of the category tags\<close>

lemma categories_sub:
  "getCategoriesForDay p d = Some cs \<Longrightarrow>
     subseq cs [''waste'', ''junk'', ''tree'', ''recycling''] \<and> distinct cs"
  by (auto simp: getCategoriesForDay_def split: option.splits)

text \<open>
  C9. Whenever \<open>getCategoriesForDay\<close> returns, its list is a subsequence of
  \<open>[waste, junk, tree, recycling]\<close> with no tag twice; so is the tag list of every
  event that \<open>getUpcomingEvents\<close> emits.
\<close>

theorem categories_order:
  "(getCategoriesForDay p d = Some cs \<longrightarrow>
      subseq cs [''waste'', ''junk'', ''tree'', ''recycling''] \<and> distinct cs) \<and>
   (getUpcomingEvents p hol today n = Some evs \<longrightarrow>
      (\<forall>e \<in> set evs. subseq (categories e) [''waste'', ''junk'', ''tree'', ''recycling'']
                       \<and> distinct (categories e)))"
  using categories_sub upcoming_event_origin by blast

theorem categories_order_witness:
  "getCategoriesForDay
     \<lparr>wasteDay = Num 2, junkWeekOfMonth = Num 3, junkDay = Num 2, recyclingDay = Num 2,
      recyclingOnEvenWeeks = False\<rparr>
     \<lparr>year = 2024, month = 0, date = 16\<rparr> = Some [''waste'', ''tree'', ''recycling''] \<and>
   subseq [''waste'', ''tree'', ''recycling''] [''waste'', ''junk'', ''tree'', ''recycling''] \<and>
   distinct [''waste'', ''tree'', ''recycling''] \<and>
   getUpcomingEvents
     \<lparr>wasteDay = Num 2, junkWeekOfMonth = Num 3, junkDay = Num 2, recyclingDay = Num 2,
      recyclingOnEvenWeeks = False\<rparr> []
     \<lparr>year = 2024, month = 0, date = 16\<rparr> 2 =
     Some [\<lparr>day = \<lparr>year = 2024, month = 0, date = 16\<rparr>,
            categories = [''waste'', ''tree'', ''recycling''], possibleHoliday = False\<rparr>] \<and>
   subseq (categories \<lparr>day = \<lparr>year = 2024, month = 0, date = 16\<rparr>,
                        categories = [''waste'', ''tree'', ''recycling''], possibleHoliday = False\<rparr>)
     [''waste'', ''junk'', ''tree'', ''recycling'']"
proof -
  let ?p = "\<lparr>wasteDay = Num 2, junkWeekOfMonth = Num 3, junkDay = Num 2, recyclingDay = Num 2,
             recyclingOnEvenWeeks = False\<rparr>"
  let ?d = "\<lparr>year = 2024, month = 0, date = 16\<rparr>"
  let ?evs = "[\<lparr>day = ?d, categories = [''waste'', ''tree'', ''recycling''], possibleHoliday = False\<rparr>]"
  have a: "getCategoriesForDay ?p ?d = Some [''waste'', ''tree'', ''recycling'']"
    by code_simp
  have b: "getUpcomingEvents ?p [] ?d 2 = Some ?evs"
    by code_simp
  from a b categories_order [of ?p ?d "[''waste'', ''tree'', ''recycling'']" "[]" ?d 2 ?evs]
  show ?thesis by simp
qed

section \<open>C10: strings that are no weekday\<close>

text \<open>
  C10 as stated fails: moment parses forgivingly, and a string that is none of the
  seven weekday names can still be read as a weekday. For \<open>Mon\<close> the day field is 1,
  not \<open>NaN\<close>, and a waste event is emitted on Monday 2024-01-01.
\<close>

theorem weekday_abbreviation_counterexample:
  "''Mon'' \<notin> set (map (\<lambda>(i, long, short, mn). long) weekdayNames) \<and>
   wasteDay (parseData (Some \<lparr>features = Some [\<lparr>attributes = Some ''Mon''\<rparr>]\<rparr>) None None) = Num 1 \<and>
   getUpcomingEvents (parseData (Some \<lparr>features = Some [\<lparr>attributes = Some ''Mon''\<rparr>]\<rparr>) None None) []
     \<lparr>year = 2024, month = 0, date = 1\<rparr> 1 =
     Some [\<lparr>day = \<lparr>year = 2024, month = 0, date = 1\<rparr>, categories = [''waste''], possibleHoliday = False\<rparr>]"
  by code_simp

text \<open>
  C10, amended. For a valid waste record whose string holds no weekday for moment (it
  has no word, or its first word does not begin with the two-letter short form of a
  weekday name), the day field is \<open>NaN\<close>, \<open>isWasteDay\<close> is false on every date and no
  emitted event has the waste tag; the same for a valid recycling record and the
  part of its string before the first dash.
\<close>

theorem unparsed_weekday_never_matches:
  "(isValidData wasteData \<and> noWeekdayIn (fieldOf wasteData) \<longrightarrow>
      wasteDay (parseData wasteData junkData recyclingData) = NaN \<and>
      \<not> isWasteDay (parseData wasteData junkData recyclingData) d \<and>
      (\<forall>evs. getUpcomingEvents (parseData wasteData junkData recyclingData) hol today n = Some evs \<longrightarrow>
         (\<forall>e \<in> set evs. ''waste'' \<notin> set (categories e)))) \<and>
   (isValidData recyclingData \<and> noWeekdayIn (splitFirst (fieldOf recyclingData) CHR ''-'') \<longrightarrow>
      recyclingDay (parseData wasteData junkData recyclingData) = NaN \<and>
      \<not> isRecyclingDay (parseData wasteData junkData recyclingData) d \<and>
      (\<forall>evs. getUpcomingEvents (parseData wasteData junkData recyclingData) hol today n = Some evs \<longrightarrow>
         (\<forall>e \<in> set evs. ''recycling'' \<notin> set (categories e))))"
proof (intro conjI impI)
  let ?p = "parseData wasteData junkData recyclingData"
  assume "isValidData wasteData \<and> noWeekdayIn (fieldOf wasteData)"
  then show w: "wasteDay ?p = NaN" by (simp add: parseData_wasteDay getDayIndex_NaN_iff)
  then show "\<not> isWasteDay ?p d" by (rule waste_never_NaN(1))
  show "\<forall>evs. getUpcomingEvents ?p hol today n = Some evs \<longrightarrow> (\<forall>e \<in> set evs. ''waste'' \<notin> set (categories e))"
    using upcoming_event_origin [of ?p hol today n] waste_never_NaN(2) [OF w] by blast
next
  let ?p = "parseData wasteData junkData recyclingData"
  assume "isValidData recyclingData \<and> noWeekdayIn (splitFirst (fieldOf recyclingData) CHR ''-'')"
  then show r: "recyclingDay ?p = NaN" by (simp add: parseData_recyclingDay getDayIndex_NaN_iff)
  then show "\<not> isRecyclingDay ?p d" by (rule recycling_never_NaN(1))
  show "\<forall>evs. getUpcomingEvents ?p hol today n = Some evs \<longrightarrow> (\<forall>e \<in> set evs. ''recycling'' \<notin> set (categories e))"
    using upcoming_event_origin [of ?p hol today n] recycling_never_NaN(2) [OF r] by blast
qed

theorem unparsed_weekday_never_matches_witness:
  "isValidData (Some \<lparr>features = Some [\<lparr>attributes = Some ''Funday''\<rparr>]\<rparr>) \<and> noWeekdayIn (fieldOf (Some \<lparr>features = Some [\<lparr>attributes = Some ''Funday''\<rparr>]\<rparr>)) \<and>
   isValidData (Some \<lparr>features = Some [\<lparr>attributes = Some ''Funday-A''\<rparr>]\<rparr>) \<and>
   noWeekdayIn (splitFirst (fieldOf (Some \<lparr>features = Some [\<lparr>attributes = Some ''Funday-A''\<rparr>]\<rparr>)) CHR ''-'') \<and>
   wasteDay (parseData (Some \<lparr>features = Some [\<lparr>attributes = Some ''Funday''\<rparr>]\<rparr>) None (Some \<lparr>features = Some [\<lparr>attributes = Some ''Funday-A''\<rparr>]\<rparr>)) = NaN \<and>
   \<not> isWasteDay (parseData (Some \<lparr>features = Some [\<lparr>attributes = Some ''Funday''\<rparr>]\<rparr>) None (Some \<lparr>features = Some [\<lparr>attributes = Some ''Funday-A''\<rparr>]\<rparr>)) \<lparr>year = 2024, month = 0, date = 1\<rparr> \<and>
   recyclingDay (parseData (Some \<lparr>features = Some [\<lparr>attributes = Some ''Funday''\<rparr>]\<rparr>) None (Some \<lparr>features = Some [\<lparr>attributes = Some ''Funday-A''\<rparr>]\<rparr>)) = NaN \<and>
   \<not> isRecyclingDay (parseData (Some \<lparr>features = Some [\<lparr>attributes = Some ''Funday''\<rparr>]\<rparr>) None (Some \<lparr>features = Some [\<lparr>attributes = Some ''Funday-A''\<rparr>]\<rparr>)) \<lparr>year = 2024, month = 0, date = 1\<rparr>"
proof -
  let ?w = "(Some \<lparr>features = Some [\<lparr>attributes = Some ''Funday''\<rparr>]\<rparr>)"
  let ?r = "(Some \<lparr>features = Some [\<lparr>attributes = Some ''Funday-A''\<rparr>]\<rparr>)"
  have a: "isValidData ?w" by code_simp
  have b: "noWeekdayIn (fieldOf ?w)" by code_simp
  have c: "isValidData ?r" by code_simp
  have d: "noWeekdayIn (splitFirst (fieldOf ?r) CHR ''-'')" by code_simp
  from unparsed_weekday_never_matches [of ?w None ?r "\<lparr>year = 2024, month = 0, date = 1\<rparr>" "[]" "\<lparr>year = 2024, month = 0, date = 1\<rparr>" 1]
    a b c d
  show ?thesis by simp
qed

end
